theory Spec2Isabelle
  imports Main
begin

section \<open>libargos/utils/misc.py\<close>

text \<open>
  \<^verbatim>\<open>prepend_point_to_extension\<close> only compares the first character of its argument with
  the point, so its strings are modelled as \<^typ>\<open>string\<close>. \<^verbatim>\<open>string_to_identifier\<close>
  depends on which characters are letters and whitespace: its strings are the \<^verbatim>\<open>str\<close>
  of Python 3, lists of Unicode code points.
\<close>

subsection \<open>prepend\_point\_to\_extension\<close>

text \<open>\<^verbatim>\<open>extension.startswith('.')\<close>: false on the empty string.\<close>

fun startswith_point :: "string \<Rightarrow> bool" where
  "startswith_point [] = False"
| "startswith_point (c # cs) = (c = CHR ''.'')"

definition prepend_point_to_extension :: "string \<Rightarrow> string" where
  "prepend_point_to_extension extension =
     (if startswith_point extension then extension else CHR ''.'' # extension)"

subsection \<open>string\_to\_identifier\<close>

text \<open>A \<^verbatim>\<open>str\<close> is a list of code points; \<open>codepoints\<close> writes one from its ASCII
  characters.\<close>

type_synonym codepoint = nat

definition codepoints :: "string \<Rightarrow> codepoint list" where
  "codepoints s = map of_char s"

definition underscore :: codepoint where
  "underscore = 95"

definition hyphen :: codepoint where
  "hyphen = 45"

definition is_upper :: "codepoint \<Rightarrow> bool" where
  "is_upper c \<longleftrightarrow> 65 \<le> c \<and> c \<le> 90"

definition is_lower :: "codepoint \<Rightarrow> bool" where
  "is_lower c \<longleftrightarrow> 97 \<le> c \<and> c \<le> 122"

definition is_digit :: "codepoint \<Rightarrow> bool" where
  "is_digit c \<longleftrightarrow> 48 \<le> c \<and> c \<le> 57"

text \<open>
  The class \<^verbatim>\<open>\s\<close> of \<^verbatim>\<open>re\<close> on a \<^verbatim>\<open>str\<close> pattern: the code points for which
  \<^verbatim>\<open>str.isspace\<close> holds. These are U+0009 to U+000D, U+001C to U+001F, U+0020, U+0085,
  U+00A0, U+1680, U+2000 to U+200A, U+2028, U+2029, U+202F, U+205F and U+3000.
\<close>

definition is_space :: "codepoint \<Rightarrow> bool" where
  "is_space c \<longleftrightarrow>
     (9 \<le> c \<and> c \<le> 13) \<or> (28 \<le> c \<and> c \<le> 31) \<or> c = 32 \<or> c = 133 \<or> c = 160
     \<or> c = 5760 \<or> (8192 \<le> c \<and> c \<le> 8202) \<or> c = 8232 \<or> c = 8233 \<or> c = 8239
     \<or> c = 8287 \<or> c = 12288"

text \<open>\<^verbatim>\<open>re.sub(r"\s+", "_", s)\<close>: scanning from the left, every maximal run of whitespace
  is replaced by one underscore.\<close>

function sub_whitespace :: "codepoint list \<Rightarrow> codepoint list" where
  "sub_whitespace [] = []"
| "sub_whitespace (c # cs) =
     (if is_space c then underscore # sub_whitespace (dropWhile is_space cs)
      else c # sub_whitespace cs)"
  by pat_completeness auto
termination
  by (relation "measure length") (auto simp: length_dropWhile_le less_Suc_eq_le)

text \<open>\<^verbatim>\<open>re.sub(r"-", "_", s)\<close>.\<close>

definition sub_hyphen :: "codepoint list \<Rightarrow> codepoint list" where
  "sub_hyphen s = map (\<lambda>c. if c = hyphen then underscore else c) s"

text \<open>The class \<^verbatim>\<open>[A-Za-z0-9_]\<close>, whose ranges are ASCII; \<^verbatim>\<open>re.sub(r"[^A-Za-z0-9_]", "", s)\<close>
  deletes every code point outside it.\<close>

definition is_word_char :: "codepoint \<Rightarrow> bool" where
  "is_word_char c \<longleftrightarrow> is_upper c \<or> is_lower c \<or> is_digit c \<or> c = underscore"

definition remove_non_word :: "codepoint list \<Rightarrow> codepoint list" where
  "remove_non_word s = filter is_word_char s"

text \<open>
  \<^verbatim>\<open>string_to_identifier\<close>. \<^verbatim>\<open>s.lower()\<close> follows the case table of the interpreter's
  Unicode database, which is not written out here: the method \<open>lower\<close> is a parameter.
  It maps a whole string, since one code point can become two (U+0130) and the lower
  case of a capital sigma depends on its place in the word.
\<close>

definition string_to_identifier ::
  "(codepoint list \<Rightarrow> codepoint list) \<Rightarrow> codepoint list \<Rightarrow> codepoint list" where
  "string_to_identifier lower s = remove_non_word (sub_hyphen (sub_whitespace (lower s)))"

text \<open>The code points the result may hold: lowercase letters, digits and the underscore.\<close>

definition is_identifier_char :: "codepoint \<Rightarrow> bool" where
  "is_identifier_char c \<longleftrightarrow> is_lower c \<or> is_digit c \<or> c = underscore"

text \<open>
  The description of the function in one pass over the string in lower case, as the
  specification words it: a run of whitespace becomes one underscore, a hyphen becomes
  an underscore, and every other code point that is not a lowercase letter, a digit or
  an underscore is removed.
\<close>

function identifier_spec :: "codepoint list \<Rightarrow> codepoint list" where
  "identifier_spec [] = []"
| "identifier_spec (c # cs) =
     (if is_space c then underscore # identifier_spec (dropWhile is_space cs)
      else if c = hyphen then underscore # identifier_spec cs
      else if is_identifier_char c then c # identifier_spec cs
      else identifier_spec cs)"
  by pat_completeness auto
termination
  by (relation "measure length") (auto simp: length_dropWhile_le less_Suc_eq_le)

text \<open>
  For the examples, a fragment of the case table: the letters A to Z, the Kelvin sign
  U+212A (whose lower case is the letter k) and the capital I with a dot U+0130 (whose
  lower case is the letter i followed by the combining dot U+0307). Every other code
  point is left as it is, which is what \<^verbatim>\<open>str.lower\<close> does outside the letters that
  have a lower case.
\<close>

definition lower_fragment :: "codepoint \<Rightarrow> codepoint list" where
  "lower_fragment c =
     (if is_upper c then [c + 32]
      else if c = 8490 then [107]
      else if c = 304 then [105, 775]
      else [c])"

definition lower_example :: "codepoint list \<Rightarrow> codepoint list" where
  "lower_example s = concat (map lower_fragment s)"

section \<open>Indices, values and exceptions shared by the views\<close>

text \<open>
  A \<^verbatim>\<open>QModelIndex\<close> is either the invalid index (which also stands for the invisible root
  of a tree model) or locates a cell: the rows from the top level down to the parent,
  the row under that parent, and the column.
\<close>

datatype QModelIndex =
    InvalidIndex
  | ModelIndex (indexParent: "nat list") (indexRow: nat) (indexColumn: nat)

fun isValid :: "QModelIndex \<Rightarrow> bool" where
  "isValid InvalidIndex = False"
| "isValid (ModelIndex pp r c) = True"

text \<open>\<^verbatim>\<open>index.row()\<close> and \<^verbatim>\<open>index.column()\<close>: -1 on the invalid index.\<close>

fun row :: "QModelIndex \<Rightarrow> int" where
  "row InvalidIndex = -1"
| "row (ModelIndex pp r c) = int r"

fun column :: "QModelIndex \<Rightarrow> int" where
  "column InvalidIndex = -1"
| "column (ModelIndex pp r c) = int c"

text \<open>\<^verbatim>\<open>index.parent()\<close>: the index (in column 0) of the parent node; invalid for a
  top-level node and for the invalid index.\<close>

fun parent :: "QModelIndex \<Rightarrow> QModelIndex" where
  "parent InvalidIndex = InvalidIndex"
| "parent (ModelIndex pp r c) = (if pp = [] then InvalidIndex else ModelIndex (butlast pp) (last pp) 0)"

text \<open>\<^verbatim>\<open>index.sibling(r, c)\<close>: the cell in row \<open>r\<close> and column \<open>c\<close> under the same parent;
  the invalid index has no siblings. (The views only ask for the index's own row in
  column 0, which every model with a column has.)\<close>

fun sibling :: "QModelIndex \<Rightarrow> int \<Rightarrow> int \<Rightarrow> QModelIndex" where
  "sibling InvalidIndex r c = InvalidIndex"
| "sibling (ModelIndex pp r0 c0) r c =
     (if 0 \<le> r \<and> 0 \<le> c then ModelIndex pp (nat r) (nat c) else InvalidIndex)"

text \<open>The rows leading from the top level to the node of an index; empty for the root.\<close>

fun itemPath :: "QModelIndex \<Rightarrow> nat list" where
  "itemPath InvalidIndex = []"
| "itemPath (ModelIndex pp r c) = pp @ [r]"

datatype role = DisplayRole | EditRole

datatype pyvalue = PyNone | PyBool bool | PyInt int | PyStr string

text \<open>The exceptions of the views: a failed \<^verbatim>\<open>assert\<close>; the \<^verbatim>\<open>InvalidInputError\<close> of
  \<^verbatim>\<open>basecti\<close>; the \<^verbatim>\<open>AttributeError\<close> of a method call on \<^verbatim>\<open>None\<close>; any other exception
  of a collaborator; and \<open>NotInModel\<close> where a tree model is asked about an index that
  locates none of its nodes (the specification leaves that case open, the model of the
  code stops there).\<close>

datatype exn =
    AssertionError string
  | InvalidInputError string
  | AttributeError string
  | OtherError string
  | NotInModel

section \<open>libargos/widgets/configtreeview.py\<close>

text \<open>An editor widget is a \<^verbatim>\<open>CtiEditor\<close> or any other \<^verbatim>\<open>QWidget\<close>; the number is the
  identity of the object.\<close>

datatype editor = CtiEditor nat | QWidget nat

fun isinstance_CtiEditor :: "editor \<Rightarrow> bool" where
  "isinstance_CtiEditor (CtiEditor n) = True"
| "isinstance_CtiEditor (QWidget n) = False"

datatype EndEditHint = NoHint | EditNextItem | EditPreviousItem | SubmitModelCache | RevertModelCache

text \<open>
  The collaborators of the delegate, which live in \<^verbatim>\<open>libargos.config\<close>, are parameters:
  the configuration tree model (its state is of type \<open>'m\<close>, its items of type \<open>'cti\<close>)
  with the constant \<^verbatim>\<open>COL_VALUE\<close>, and the methods of a configuration tree item.
  \<^verbatim>\<open>getEditorValue\<close> and \<^verbatim>\<open>createEditor\<close> return a value or raise.
\<close>

record ('m, 'cti) config_env =
  COL_VALUE :: int
  model_data :: "'m \<Rightarrow> QModelIndex \<Rightarrow> role \<Rightarrow> pyvalue"
  model_getItem :: "'m \<Rightarrow> QModelIndex \<Rightarrow> 'cti"
  model_setData :: "'m \<Rightarrow> QModelIndex \<Rightarrow> pyvalue \<Rightarrow> role \<Rightarrow> 'm"
  cti_paintDisplayValue :: "'cti \<Rightarrow> pyvalue \<Rightarrow> bool"
  cti_createEditor :: "'cti \<Rightarrow> exn + editor"
  cti_getEditorValue :: "'cti \<Rightarrow> editor \<Rightarrow> exn + pyvalue"

text \<open>The calls a method of the delegate or of the view makes, in the order it makes
  them.\<close>

datatype 'cti delegate_call =
    LoggerDebug
  | LoggerWarn exn
  | ModelData QModelIndex role
  | ModelGetItem QModelIndex
  | ModelSetData QModelIndex pyvalue role
  | CtiPaintDisplayValue 'cti pyvalue
  | CtiCreateEditor 'cti
  | CtiGetEditorValue 'cti editor
  | CtiSetEditorValue 'cti editor pyvalue
  | EditorFinalize editor
  | SuperPaint QModelIndex
  | SuperCloseEditor editor EndEditHint

text \<open>\<^verbatim>\<open>ConfigItemDelegate.paint\<close>: the calls made. The painter and the style option are
  passed through unchanged and left out.\<close>

definition paint :: "('m, 'cti) config_env \<Rightarrow> 'm \<Rightarrow> QModelIndex \<Rightarrow> 'cti delegate_call list" where
  "paint env m index =
     (let (calls, painted) =
        (if column index = COL_VALUE env then
           (let v = model_data env m index EditRole;
                cti = model_getItem env m index;
                painted = cti_paintDisplayValue env cti v
            in ([ModelData index EditRole, ModelGetItem index, CtiPaintDisplayValue cti v], painted))
         else ([], False))
      in if \<not> painted then calls @ [SuperPaint index] else calls)"

text \<open>\<^verbatim>\<open>ConfigItemDelegate.createEditor\<close>: the calls made, and the editor or the exception.
  An \<^verbatim>\<open>assert\<close> is executed, as it is unless the interpreter runs with \<^verbatim>\<open>-O\<close>.\<close>

definition createEditor ::
  "('m, 'cti) config_env \<Rightarrow> 'm \<Rightarrow> QModelIndex \<Rightarrow> 'cti delegate_call list \<times> (exn + editor)" where
  "createEditor env m index =
     (if \<not> isValid index then ([LoggerDebug], Inl (AssertionError ''sanity check failed: invalid index''))
      else (let cti = model_getItem env m index
            in ([LoggerDebug, ModelGetItem index, CtiCreateEditor cti], cti_createEditor env cti)))"

text \<open>\<^verbatim>\<open>ConfigItemDelegate.finalizeEditor\<close>.\<close>

definition finalizeEditor :: "editor \<Rightarrow> 'cti delegate_call list" where
  "finalizeEditor ed = (if isinstance_CtiEditor ed then [EditorFinalize ed] else [LoggerDebug])"

text \<open>\<^verbatim>\<open>ConfigItemDelegate.setEditorData\<close>: the calls made, and whether the method
  returned. The model is reached through the index (\<^verbatim>\<open>index.model()\<close>), which is \<^verbatim>\<open>None\<close>
  for an invalid index: there the first call raises before anything is done.\<close>

definition setEditorData ::
  "('m, 'cti) config_env \<Rightarrow> 'm \<Rightarrow> editor \<Rightarrow> QModelIndex
     \<Rightarrow> 'cti delegate_call list \<times> (exn + unit)" where
  "setEditorData env m ed index =
     (if \<not> isValid index
      then ([], Inl (AttributeError ''NoneType object has no attribute data''))
      else (let d = model_data env m index EditRole;
                cti = model_getItem env m index
            in ([ModelData index EditRole, ModelGetItem index, CtiSetEditorValue cti ed d],
                Inr ())))"

text \<open>\<^verbatim>\<open>ConfigItemDelegate.setModelData\<close>: the state of the model afterwards, the calls
  made, and whether the method returned (\<open>Inr ()\<close>) or let an exception through.\<close>

definition setModelData ::
  "('m, 'cti) config_env \<Rightarrow> editor \<Rightarrow> 'm \<Rightarrow> QModelIndex \<Rightarrow> 'm \<times> 'cti delegate_call list \<times> (exn + unit)" where
  "setModelData env ed m index =
     (let cti = model_getItem env m index
      in case cti_getEditorValue env cti ed of
           Inl (InvalidInputError msg) \<Rightarrow>
             (m, [LoggerDebug, ModelGetItem index, CtiGetEditorValue cti ed,
                  LoggerWarn (InvalidInputError msg)], Inr ())
         | Inl ex \<Rightarrow>
             (m, [LoggerDebug, ModelGetItem index, CtiGetEditorValue cti ed], Inl ex)
         | Inr d \<Rightarrow>
             (model_setData env m index d EditRole,
              [LoggerDebug, ModelGetItem index, CtiGetEditorValue cti ed,
               ModelSetData index d EditRole], Inr ()))"

text \<open>\<^verbatim>\<open>ConfigTreeView.closeEditor\<close>; \<^verbatim>\<open>self.itemDelegate()\<close> is the
  \<^verbatim>\<open>ConfigItemDelegate\<close> that the constructor installs.\<close>

definition closeEditor :: "editor \<Rightarrow> EndEditHint \<Rightarrow> 'cti delegate_call list" where
  "closeEditor ed hint = finalizeEditor ed @ [SuperCloseEditor ed hint]"

section \<open>The repository tree model, a collaborator of the repository view\<close>

text \<open>
  \<^verbatim>\<open>RepoTreeModel\<close> and the repository tree items live in \<^verbatim>\<open>libargos.repo\<close>, the tree
  view base class and the selection model in the toolkit. This section models them from
  their description in the specification; the view itself, in the next section, is
  translated from its source.

  A repository tree item has an identity (of the Python object), a concrete class, the
  name of its file, a parent reference and an ordered list of children.
\<close>

datatype rti =
  Rti (nodeId: nat) (rtiClass: string) (fileName: string) (parentItem: "nat option")
      (childItems: "rti list")

fun setChildItems :: "rti list \<Rightarrow> rti \<Rightarrow> rti" where
  "setChildItems cs (Rti i c f p old) = Rti i c f p cs"

fun setParentItem :: "nat option \<Rightarrow> rti \<Rightarrow> rti" where
  "setParentItem p (Rti i c f old cs) = Rti i c f p cs"

text \<open>The identities of a node and of all nodes below it, and of the nodes below it
  only.\<close>

fun subtreeIds :: "rti \<Rightarrow> nat set" where
  "subtreeIds (Rti i c f p cs) = insert i (\<Union> (subtreeIds ` set cs))"

definition descendantIds :: "rti \<Rightarrow> nat set" where
  "descendantIds t = \<Union> (subtreeIds ` set (childItems t))"

text \<open>The node at the end of a path of rows, if there is one.\<close>

primrec itemAt :: "nat list \<Rightarrow> rti \<Rightarrow> rti option" where
  "itemAt [] t = Some t"
| "itemAt (i # p) t =
     (if i < length (childItems t) then itemAt p (childItems t ! i) else None)"

text \<open>The tree with the node at the end of a path replaced by its image under \<open>f\<close>;
  unchanged when the path leads nowhere.\<close>

primrec updateAt :: "nat list \<Rightarrow> (rti \<Rightarrow> rti) \<Rightarrow> rti \<Rightarrow> rti" where
  "updateAt [] f t = f t"
| "updateAt (i # p) f t =
     (if i < length (childItems t)
      then setChildItems ((childItems t)[i := updateAt p f (childItems t ! i)]) t
      else t)"

text \<open>The flags of \<^verbatim>\<open>QItemSelectionModel\<close> that the view uses; \<^verbatim>\<open>ClearAndSelect\<close> is
  \<^verbatim>\<open>Clear | Select\<close>.\<close>

datatype SelectionFlag = Clear | Select | Rows

definition ClearAndSelect :: "SelectionFlag set" where
  "ClearAndSelect = {Clear, Select}"

text \<open>The calls that change the state of a collaborator, as the view makes them.\<close>

datatype repo_call =
    InsertItem rti "nat option" QModelIndex
  | DeleteItemByIndex QModelIndex
  | RemoveAllChildrenAtIndex QModelIndex
  | ItemOpen nat
  | ItemClose nat
  | SetExpanded QModelIndex bool
  | SelectionSetCurrentIndex QModelIndex "SelectionFlag set"

text \<open>
  The state a repository view works on: the invisible root item of the model (its
  children are the top-level items), the number of columns of the model, the identities
  of the items whose resources are open, the identities of the items shown expanded,
  the current index and the selected indices of the selection model, and the log of the
  calls made so far.
\<close>

record repo_state =
  rootItem :: rti
  columnCount :: nat
  live :: "nat set"
  expanded :: "nat set"
  currentIndex :: QModelIndex
  selectedIndexes :: "QModelIndex set"
  callLog :: "repo_call list"

text \<open>What the model and the item classes leave to the files they read is a parameter:
  the children an open item yields when they are fetched, with the resources that come
  alive with them; which node is the file node above an index; and the item class
  detected from a file name.\<close>

record repo_env =
  fetchChildren :: "rti \<Rightarrow> rti list \<times> nat set"
  findFileRtiIndex :: "rti \<Rightarrow> QModelIndex \<Rightarrow> QModelIndex"
  detectRtiFromFileName :: "string \<Rightarrow> string"

text \<open>Modelled from the spec: \<^verbatim>\<open>RepoTreeModel.getItem(index) -> TreeItem\<close>, the node an
  index locates (the root for the invalid index).\<close>

definition getItem :: "repo_state \<Rightarrow> QModelIndex \<Rightarrow> rti option" where
  "getItem w index = itemAt (itemPath index) (rootItem w)"

text \<open>Modelled from the spec: \<^verbatim>\<open>TreeItem.childNumber() -> position\<close>, the position of the
  node of an index among the children of its parent; the root has none.\<close>

fun childNumber :: "QModelIndex \<Rightarrow> nat option" where
  "childNumber InvalidIndex = None"
| "childNumber (ModelIndex pp r c) = Some r"

text \<open>Modelled from the spec: \<^verbatim>\<open>RepoTreeModel.insertItem(item, position, parentIndex) ->
  index\<close> inserts the item at \<open>position\<close> (appends it if unspecified) under the node of
  \<open>parentIndex\<close> (the root if that is the invalid index) and returns its index. A
  top-level item keeps the null parent reference.\<close>

definition insertItem ::
  "repo_state \<Rightarrow> rti \<Rightarrow> nat option \<Rightarrow> QModelIndex \<Rightarrow> (QModelIndex \<times> repo_state) option" where
  "insertItem w item position parentIndex =
     (case getItem w parentIndex of
        None \<Rightarrow> None
      | Some par \<Rightarrow>
          (let pos = (case position of None \<Rightarrow> length (childItems par) | Some k \<Rightarrow> k);
               child = setParentItem (if isValid parentIndex then Some (nodeId par) else None) item
           in if length (childItems par) < pos then None
              else Some (ModelIndex (itemPath parentIndex) pos 0,
                     w\<lparr>rootItem := updateAt (itemPath parentIndex)
                          (\<lambda>t. setChildItems (take pos (childItems t) @ [child] @ drop pos (childItems t)) t)
                          (rootItem w),
                       callLog := callLog w @ [InsertItem item position parentIndex]\<rparr>)))"

text \<open>Modelled from the spec: \<^verbatim>\<open>RepoTreeModel.deleteItemByIndex(index)\<close> removes the node
  of the index with everything below it from the children of its parent and closes
  their resources transitively.\<close>

definition deleteItemByIndex :: "repo_state \<Rightarrow> QModelIndex \<Rightarrow> repo_state option" where
  "deleteItemByIndex w index =
     (case index of
        InvalidIndex \<Rightarrow> None
      | ModelIndex pp r c \<Rightarrow>
          (case getItem w index of
             None \<Rightarrow> None
           | Some item \<Rightarrow>
               Some (w\<lparr>rootItem := updateAt pp
                          (\<lambda>t. setChildItems (take r (childItems t) @ drop (Suc r) (childItems t)) t)
                          (rootItem w),
                       live := live w - subtreeIds item,
                       callLog := callLog w @ [DeleteItemByIndex index]\<rparr>)))"

text \<open>Modelled from the spec: \<^verbatim>\<open>RepoTreeModel.removeAllChildrenAtIndex(index)\<close> removes
  all descendant nodes of the node of the index from the model, cascading their own
  close.\<close>

definition removeAllChildrenAtIndex :: "repo_state \<Rightarrow> QModelIndex \<Rightarrow> repo_state option" where
  "removeAllChildrenAtIndex w index =
     (case getItem w index of
        None \<Rightarrow> None
      | Some item \<Rightarrow>
          Some (w\<lparr>rootItem := updateAt (itemPath index) (setChildItems []) (rootItem w),
                  live := live w - descendantIds item,
                  callLog := callLog w @ [RemoveAllChildrenAtIndex index]\<rparr>))"

text \<open>Modelled from the spec: \<^verbatim>\<open>RepoTreeModel.findTopLevelItemIndex(index)\<close> walks up
  from the index to its top-level ancestor.\<close>

function findTopLevelItemIndex :: "QModelIndex \<Rightarrow> QModelIndex" where
  "findTopLevelItemIndex index =
     (if isValid (parent index) then findTopLevelItemIndex (parent index) else index)"
  by pat_completeness auto
termination
proof (relation "measure (\<lambda>index. length (itemPath index))")
  fix index
  assume "isValid (parent index)"
  then show "(parent index, index) \<in> measure (\<lambda>index. length (itemPath index))"
    by (cases index) (auto split: if_splits)
qed simp

text \<open>Modelled from the spec: \<^verbatim>\<open>rtiClass.createFromFileName(name) -> TreeItem\<close>
  constructs a fresh item of the class from the file: it has no parent and no children
  yet.\<close>

definition createFromFileName :: "string \<Rightarrow> string \<Rightarrow> nat \<Rightarrow> rti" where
  "createFromFileName cls name newId = Rti newId cls name None []"

text \<open>Modelled from the spec: \<^verbatim>\<open>TreeItem.open()\<close> and \<^verbatim>\<open>TreeItem.close()\<close> acquire and
  release the resource of the item.\<close>

definition rti_open :: "repo_state \<Rightarrow> rti \<Rightarrow> repo_state" where
  "rti_open w item = w\<lparr>live := insert (nodeId item) (live w),
                        callLog := callLog w @ [ItemOpen (nodeId item)]\<rparr>"

definition rti_close :: "repo_state \<Rightarrow> rti \<Rightarrow> repo_state" where
  "rti_close w item = w\<lparr>live := live w - {nodeId item},
                         callLog := callLog w @ [ItemClose (nodeId item)]\<rparr>"

text \<open>Modelled from the spec: the expanded or collapsed display state of a node,
  \<^verbatim>\<open>setExpanded(index, flag)\<close> of the toolkit's tree view; \<^verbatim>\<open>expand(index)\<close> and
  \<^verbatim>\<open>collapse(index)\<close> are \<^verbatim>\<open>setExpanded(index, True)\<close> and
  \<^verbatim>\<open>setExpanded(index, False)\<close>. The children of an open node are fetched lazily on
  expansion.\<close>

definition setExpanded :: "repo_env \<Rightarrow> repo_state \<Rightarrow> QModelIndex \<Rightarrow> bool \<Rightarrow> repo_state" where
  "setExpanded env w index flag =
     (let w0 = w\<lparr>callLog := callLog w @ [SetExpanded index flag]\<rparr>
      in if \<not> isValid index then w0
         else case getItem w index of
                None \<Rightarrow> w0
              | Some item \<Rightarrow>
                  (let w1 = w0\<lparr>expanded := (if flag then insert (nodeId item) (expanded w)
                                               else expanded w - {nodeId item})\<rparr>
                   in if flag \<and> nodeId item \<in> live w \<and> childItems item = []
                      then w1\<lparr>rootItem := updateAt (itemPath index)
                                   (setChildItems (fst (fetchChildren env item))) (rootItem w),
                               live := live w \<union> snd (fetchChildren env item)\<rparr>
                      else w1))"

text \<open>The cells of the row of an index, one per column of the model; none for the
  invalid index.\<close>

fun rowIndexes :: "nat \<Rightarrow> QModelIndex \<Rightarrow> QModelIndex set" where
  "rowIndexes n InvalidIndex = {}"
| "rowIndexes n (ModelIndex pp r c) = (\<lambda>k. ModelIndex pp r k) ` {..<n}"

text \<open>Modelled from the spec: \<^verbatim>\<open>QItemSelectionModel.setCurrentIndex(index, flags)\<close> makes
  the index the current one and updates the selection with it: \<^verbatim>\<open>Rows\<close> widens the index
  to its whole row, \<^verbatim>\<open>Clear\<close> empties the selection first, \<^verbatim>\<open>Select\<close> adds to it.\<close>

definition selectionModel_setCurrentIndex ::
  "repo_state \<Rightarrow> QModelIndex \<Rightarrow> SelectionFlag set \<Rightarrow> repo_state" where
  "selectionModel_setCurrentIndex w index flags =
     (let sel = (if Rows \<in> flags then rowIndexes (columnCount w) index
                 else if isValid index then {index} else {});
          base = (if Clear \<in> flags then {} else selectedIndexes w)
      in w\<lparr>currentIndex := index,
           selectedIndexes := (if Select \<in> flags then base \<union> sel else base),
           callLog := callLog w @ [SelectionSetCurrentIndex index flags]\<rparr>)"

section \<open>libargos/widgets/repotreeview.py\<close>

text \<open>
  The methods of \<^verbatim>\<open>RepoTreeView\<close>, translated from the source. A method returns its
  result, or the exception that leaves it, together with the state it leaves behind.
\<close>

text \<open>The constructor: a view on a model; nothing is current, selected or expanded.\<close>

definition RepoTreeView :: "rti \<Rightarrow> nat \<Rightarrow> nat set \<Rightarrow> repo_state" where
  "RepoTreeView root ncols opened =
     \<lparr>rootItem = root, columnCount = ncols, live = opened, expanded = {},
      currentIndex = InvalidIndex, selectedIndexes = {}, callLog = []\<rparr>"

definition loadRepoTreeItem ::
  "repo_env \<Rightarrow> repo_state \<Rightarrow> rti \<Rightarrow> bool \<Rightarrow> nat option \<Rightarrow> QModelIndex
     \<Rightarrow> (exn + QModelIndex) \<times> repo_state" where
  "loadRepoTreeItem env w repoTreeItem expand position parentIndex =
     (if parentItem repoTreeItem \<noteq> None then (Inl (AssertionError ''repoTreeItem''), w)
      else case insertItem w repoTreeItem position parentIndex of
             None \<Rightarrow> (Inl NotInModel, w)
           | Some (storeRootIndex, w1) \<Rightarrow>
               (Inr storeRootIndex, setExpanded env w1 storeRootIndex expand))"


definition setCurrentIndex :: "repo_state \<Rightarrow> QModelIndex \<Rightarrow> repo_state" where
  "setCurrentIndex w index = selectionModel_setCurrentIndex w index (ClearAndSelect \<union> {Rows})"

definition getCurrentIndex :: "repo_state \<Rightarrow> QModelIndex" where
  "getCurrentIndex w =
     (let curIndex = currentIndex w;
          col0Index = sibling curIndex (row curIndex) 0
      in col0Index)"

definition getCurrentItem :: "repo_state \<Rightarrow> exn + (rti \<times> QModelIndex)" where
  "getCurrentItem w =
     (let cur = getCurrentIndex w
      in case getItem w cur of
           None \<Rightarrow> Inl NotInModel
         | Some currentItem \<Rightarrow> Inr (currentItem, cur))"

definition openCurrentItem :: "repo_env \<Rightarrow> repo_state \<Rightarrow> (exn + unit) \<times> repo_state" where
  "openCurrentItem env w =
     (case getCurrentItem w of
        Inl e \<Rightarrow> (Inl e, w)
      | Inr (currentItem, cur) \<Rightarrow> (Inr (), setExpanded env (rti_open w currentItem) cur True))"

definition closeCurrentItem :: "repo_env \<Rightarrow> repo_state \<Rightarrow> (exn + unit) \<times> repo_state" where
  "closeCurrentItem env w =
     (case getCurrentItem w of
        Inl e \<Rightarrow> (Inl e, w)
      | Inr (currentItem, cur) \<Rightarrow>
          (case removeAllChildrenAtIndex w cur of
             None \<Rightarrow> (Inl NotInModel, w)
           | Some w1 \<Rightarrow> (Inr (), setExpanded env (rti_close w1 currentItem) cur False)))"

definition removeCurrentFile :: "repo_state \<Rightarrow> (exn + unit) \<times> repo_state" where
  "removeCurrentFile w =
     (let cur = getCurrentIndex w;
          topLevelIndex = findTopLevelItemIndex cur
      in case deleteItemByIndex w topLevelIndex of
           None \<Rightarrow> (Inl NotInModel, w)
         | Some w1 \<Rightarrow> (Inr (), w1))"

definition reloadFileOfCurrentItem ::
  "repo_env \<Rightarrow> repo_state \<Rightarrow> nat \<Rightarrow> (exn + QModelIndex) \<times> repo_state" where
  "reloadFileOfCurrentItem env w newId =
     (let cur = getCurrentIndex w;
          fileRtiIndex = findFileRtiIndex env (rootItem w) cur;
          fileRtiParentIndex = parent fileRtiIndex
      in case getItem w fileRtiIndex of
           None \<Rightarrow> (Inl NotInModel, w)
         | Some fileRti \<Rightarrow>
             (case childNumber fileRtiIndex of
                None \<Rightarrow> (Inl NotInModel, w)
              | Some position \<Rightarrow>
                  (case deleteItemByIndex w fileRtiIndex of
                     None \<Rightarrow> (Inl NotInModel, w)
                   | Some w1 \<Rightarrow>
                       (let newRti = createFromFileName (rtiClass fileRti) (fileName fileRti) newId
                        in case loadRepoTreeItem env w1 newRti True (Some position) fileRtiParentIndex of
                             (Inl e, w2) \<Rightarrow> (Inl e, w2)
                           | (Inr newRtiIndex, w2) \<Rightarrow>
                               (Inr newRtiIndex, setCurrentIndex w2 newRtiIndex)))))"

text \<open>
  The description of a reload in the words of the specification: delete the file node,
  then load a freshly constructed node of the same class from the same file name at the
  same sibling position under the same parent, expanded.
\<close>

definition removeThenLoadAtSamePosition ::
  "repo_env \<Rightarrow> repo_state \<Rightarrow> QModelIndex \<Rightarrow> nat \<Rightarrow> ((exn + QModelIndex) \<times> repo_state) option" where
  "removeThenLoadAtSamePosition env w fileRtiIndex newId =
     (case getItem w fileRtiIndex of
        None \<Rightarrow> None
      | Some old \<Rightarrow>
          (case deleteItemByIndex w fileRtiIndex of
             None \<Rightarrow> None
           | Some w1 \<Rightarrow>
               Some (loadRepoTreeItem env w1 (createFromFileName (rtiClass old) (fileName old) newId)
                       True (childNumber fileRtiIndex) (parent fileRtiIndex))))"


text \<open>A call on the selection model that sets the current index selects the row of
  that index with it when its flags are \<^verbatim>\<open>ClearAndSelect | Rows\<close>; calls on other
  collaborators do not set the current index.\<close>

fun selectsItsRow :: "repo_call \<Rightarrow> bool" where
  "selectsItsRow (SelectionSetCurrentIndex index flags) = (flags = ClearAndSelect \<union> {Rows})"
| "selectsItsRow other = True"

text \<open>From the state \<open>w\<close> to the state \<open>w'\<close> the log has only grown, and every call
  added that sets the current index selects its row.\<close>

definition onlySelectingCalls :: "repo_state \<Rightarrow> repo_state \<Rightarrow> bool" where
  "onlySelectingCalls w w' \<longleftrightarrow>
     take (length (callLog w)) (callLog w') = callLog w
     \<and> list_all selectsItsRow (drop (length (callLog w)) (callLog w'))"

text \<open>What the selection model holds, with the number of columns of the model.\<close>

definition selectionState :: "repo_state \<Rightarrow> QModelIndex \<times> QModelIndex set \<times> nat" where
  "selectionState w = (currentIndex w, selectedIndexes w, columnCount w)"

section \<open>Reading a log of calls\<close>

text \<open>The calls of a log that write to the configuration model, and those made on a
  configuration tree item.\<close>

fun isModelSetData :: "'cti delegate_call \<Rightarrow> bool" where
  "isModelSetData (ModelSetData index d r) = True"
| "isModelSetData other = False"

fun isCtiCall :: "'cti delegate_call \<Rightarrow> bool" where
  "isCtiCall (CtiPaintDisplayValue cti d) = True"
| "isCtiCall (CtiCreateEditor cti) = True"
| "isCtiCall (CtiGetEditorValue cti ed) = True"
| "isCtiCall (CtiSetEditorValue cti ed d) = True"
| "isCtiCall other = False"

fun isModelGetItem :: "'cti delegate_call \<Rightarrow> bool" where
  "isModelGetItem (ModelGetItem index) = True"
| "isModelGetItem other = False"

section \<open>Example collaborators\<close>

text \<open>A configuration model that holds one value, whatever the index, with one item;
  the item reads the number of a \<^verbatim>\<open>CtiEditor\<close> as its input, rejects the input of any
  other widget, and paints true values itself.\<close>

definition exampleConfigEnv :: "(pyvalue, unit) config_env" where
  "exampleConfigEnv =
     \<lparr>COL_VALUE = 1,
      model_data = (\<lambda>m index r. m),
      model_getItem = (\<lambda>m index. ()),
      model_setData = (\<lambda>m index d r. d),
      cti_paintDisplayValue = (\<lambda>cti d. d = PyBool True),
      cti_createEditor = (\<lambda>cti. Inr (CtiEditor 0)),
      cti_getEditorValue = (\<lambda>cti ed.
         if isinstance_CtiEditor ed then Inr (PyStr ''12'') else Inl (InvalidInputError ''no input''))\<rparr>"

text \<open>A repository with two files, the first with one variable below it; the first file
  and its variable are open. Nothing is fetched lazily, the file node above an index is
  its top-level ancestor, and every file is detected as a NetCDF file.\<close>

definition exampleRoot :: rti where
  "exampleRoot =
     Rti 0 ''root'' [] None
       [Rti 1 ''NcdfFileRti'' ''a.nc'' None [Rti 2 ''NcdfVariableRti'' ''a.nc'' (Some 1) []],
        Rti 3 ''NcdfFileRti'' ''b.nc'' None []]"

definition exampleRepoEnv :: repo_env where
  "exampleRepoEnv =
     \<lparr>fetchChildren = (\<lambda>item. ([], {})),
      findFileRtiIndex = (\<lambda>root index. findTopLevelItemIndex index),
      detectRtiFromFileName = (\<lambda>name. ''NcdfFileRti'')\<rparr>"

definition exampleView :: repo_state where
  "exampleView = RepoTreeView exampleRoot 2 {1, 2}"

section \<open>Properties of misc.py\<close>

lemma identifier_char_not_space: "is_identifier_char c \<Longrightarrow> \<not> is_space c"
  unfolding is_identifier_char_def is_space_def is_lower_def is_digit_def underscore_def
  by arith

lemma identifier_char_not_hyphen: "is_identifier_char c \<Longrightarrow> c \<noteq> hyphen"
  unfolding is_identifier_char_def is_lower_def is_digit_def underscore_def hyphen_def
  by arith

lemma identifier_char_not_upper: "is_identifier_char c \<Longrightarrow> \<not> is_upper c"
  unfolding is_identifier_char_def is_lower_def is_digit_def underscore_def is_upper_def
  by arith

lemma word_char_iff: "is_word_char c \<longleftrightarrow> is_upper c \<or> is_identifier_char c"
  by (auto simp: is_word_char_def is_identifier_char_def)

lemma underscore_identifier_char: "is_identifier_char underscore"
  by (simp add: is_identifier_char_def)

lemma hyphen_not_underscore: "hyphen \<noteq> underscore"
  by (simp add: hyphen_def underscore_def)

text \<open>On a string without the letters A to Z, the three substitutions do what the
  one-pass description says.\<close>

lemma substitutions_spec:
  "\<forall>c \<in> set t. \<not> is_upper c \<Longrightarrow>
   remove_non_word (sub_hyphen (sub_whitespace t)) = identifier_spec t"
proof (induction t rule: identifier_spec.induct)
  case 1
  show ?case
    by (simp add: sub_hyphen_def remove_non_word_def)
next
  case (2 c cs)
  have rest: "\<forall>x \<in> set cs. \<not> is_upper x" and c: "\<not> is_upper c"
    using 2(5) by simp_all
  have drop: "\<forall>x \<in> set (dropWhile is_space cs). \<not> is_upper x"
    using rest by (meson set_dropWhileD)
  show ?case
  proof (cases "is_space c")
    case True
    with 2(1) drop show ?thesis
      by (simp add: sub_hyphen_def remove_non_word_def word_char_iff underscore_identifier_char
          hyphen_not_underscore [symmetric])
  next
    case nsp: False
    show ?thesis
    proof (cases "c = hyphen")
      case True
      with nsp 2(2) rest show ?thesis
        by (simp add: sub_hyphen_def remove_non_word_def word_char_iff underscore_identifier_char)
    next
      case False
      with nsp 2(3,4) rest c show ?thesis
        by (simp add: sub_hyphen_def remove_non_word_def word_char_iff)
    qed
  qed
qed

lemma identifier_spec_chars: "c \<in> set (identifier_spec s) \<Longrightarrow> is_identifier_char c"
  by (induction s rule: identifier_spec.induct)
     (auto simp: underscore_identifier_char split: if_splits)

lemma identifier_spec_fix:
  "\<forall>c \<in> set s. is_identifier_char c \<Longrightarrow> identifier_spec s = s"
  by (induction s rule: identifier_spec.induct)
     (auto simp: identifier_char_not_space identifier_char_not_hyphen)

lemma lower_fragment_no_upper: "x \<in> set (lower_fragment c) \<Longrightarrow> \<not> is_upper x"
proof -
  assume x: "x \<in> set (lower_fragment c)"
  consider (u) "is_upper c" | (k) "\<not> is_upper c" "c = 8490" | (i) "\<not> is_upper c" "c \<noteq> 8490" "c = 304"
    | (o) "\<not> is_upper c" "c \<noteq> 8490" "c \<noteq> 304"
    by blast
  then show ?thesis
  proof cases
    case u
    with x have "x = c + 32" by (simp add: lower_fragment_def)
    with u show ?thesis unfolding is_upper_def by arith
  next
    case k
    with x have "x = 107" by (simp add: lower_fragment_def)
    then show ?thesis unfolding is_upper_def by arith
  next
    case i
    with x have "x = 105 \<or> x = 775" by (simp add: lower_fragment_def)
    then show ?thesis unfolding is_upper_def by arith
  next
    case o
    with x have "x = c" by (simp add: lower_fragment_def)
    with o show ?thesis by simp
  qed
qed

lemma lower_fragment_fixes:
  "is_lower c \<or> is_digit c \<or> c = underscore \<Longrightarrow> lower_fragment c = [c]"
proof -
  assume a: "is_lower c \<or> is_digit c \<or> c = underscore"
  then have "\<not> is_upper c" and "c \<noteq> 8490" and "c \<noteq> 304"
    unfolding is_lower_def is_digit_def underscore_def is_upper_def by arith+
  then show ?thesis by (simp add: lower_fragment_def)
qed

lemma lower_example_no_upper: "\<forall>c \<in> set (lower_example t). \<not> is_upper c"
  by (auto simp: lower_example_def dest: lower_fragment_no_upper)

lemma lower_example_fixes:
  "\<forall>c \<in> set t. is_lower c \<or> is_digit c \<or> c = underscore \<Longrightarrow> lower_example t = t"
  by (induction t) (simp_all add: lower_example_def lower_fragment_fixes)

text \<open>The function on each code point of the whitespace class after a letter, and on
  the code points next to the class and on U+180E, which are no whitespace: the former
  become underscores, the latter are removed.\<close>

lemma whitespace_examples:
  "string_to_identifier lower_example
      (concat (map (\<lambda>w. [97, w])
        [9, 10, 11, 12, 13, 28, 29, 30, 31, 32, 133, 160, 5760, 8192, 8193, 8194, 8195, 8196,
         8197, 8198, 8199, 8200, 8201, 8202, 8232, 8233, 8239, 8287, 12288]))
     = concat (map (\<lambda>w. [97, underscore])
        [9, 10, 11, 12, 13, 28, 29, 30, 31, 32, 133, 160, 5760, 8192, 8193, 8194, 8195, 8196,
         8197, 8198, 8199, 8200, 8201, 8202, 8232, 8233, 8239, 8287, 12288 :: nat])"
  and "string_to_identifier lower_example
      (concat (map (\<lambda>n. [98, n])
        [8, 14, 27, 33, 132, 134, 159, 161, 5759, 5761, 6158, 8191, 8203, 8231, 8234, 8238,
         8240, 8286, 8288, 12287, 12289]))
     = map (\<lambda>n. 98)
        [8, 14, 27, 33, 132, 134, 159, 161, 5759, 5761, 6158, 8191, 8203, 8231, 8234, 8238,
         8240, 8286, 8288, 12287, 12289 :: nat]"
  by (simp_all add: string_to_identifier_def lower_example_def lower_fragment_def remove_non_word_def
        sub_hyphen_def is_word_char_def is_upper_def is_lower_def is_digit_def is_space_def
        underscore_def hyphen_def)

text \<open>
  Claim C9. For every string \<open>s\<close>, \<^verbatim>\<open>string_to_identifier(s)\<close> holds lowercase letters,
  digits and underscores only; it is what the one-pass description yields on the string
  in lower case (every run of whitespace and every hyphen becomes an underscore, every
  other code point that is not a lowercase letter, a digit or an underscore is removed);
  and applying the function twice gives the same as applying it once. Of \<^verbatim>\<open>str.lower\<close>
  two properties are used: its result holds none of the letters A to Z, and it leaves a
  string of lowercase letters a to z, digits and underscores as it is.
\<close>

theorem string_to_identifier_chars_idempotent:
  assumes no_upper: "\<And>t. \<forall>c \<in> set (lower t). \<not> is_upper c"
    and fixes_identifiers: "\<And>t. \<forall>c \<in> set t. is_lower c \<or> is_digit c \<or> c = underscore \<Longrightarrow> lower t = t"
  shows "(\<forall>c \<in> set (string_to_identifier lower s). is_lower c \<or> is_digit c \<or> c = underscore)
   \<and> string_to_identifier lower s = identifier_spec (lower s)
   \<and> string_to_identifier lower (string_to_identifier lower s) = string_to_identifier lower s"
proof -
  have spec: "string_to_identifier lower t = identifier_spec (lower t)" for t
    unfolding string_to_identifier_def using no_upper [of t] by (rule substitutions_spec)
  have chars: "\<forall>c \<in> set (string_to_identifier lower s). is_identifier_char c"
    by (simp add: spec identifier_spec_chars)
  then have "lower (string_to_identifier lower s) = string_to_identifier lower s"
    by (intro fixes_identifiers) (simp add: is_identifier_char_def)
  moreover have "identifier_spec (string_to_identifier lower s) = string_to_identifier lower s"
    using chars by (rule identifier_spec_fix)
  ultimately have "string_to_identifier lower (string_to_identifier lower s) = string_to_identifier lower s"
    by (simp add: spec [of "string_to_identifier lower s"])
  with chars spec [of s] show ?thesis
    by (simp add: is_identifier_char_def)
qed

theorem string_to_identifier_witness:
  "string_to_identifier lower_example [80, 8490, 32, 28, 133, 160, 12288, 45, 120, 304, 33, 233, 90]
     = [112, 107, 95, 95, 120, 105, 122]
   \<and> identifier_spec (lower_example [80, 8490, 32, 28, 133, 160, 12288, 45, 120, 304, 33, 233, 90])
     = [112, 107, 95, 95, 120, 105, 122]
   \<and> string_to_identifier lower_example [112, 107, 95, 95, 120, 105, 122]
     = [112, 107, 95, 95, 120, 105, 122]
   \<and> list_all (\<lambda>c. is_lower c \<or> is_digit c \<or> c = underscore) [112, 107, 95, 95, 120, 105, 122]
   \<and> codepoints ''pk__xiz'' = [112, 107, 95, 95, 120, 105, 122]
   \<and> string_to_identifier lower_example (codepoints ''Pea sdf-43q45,.!24n  pijn'')
     = codepoints ''pea_sdf_43q4524n_pijn''"
proof -
  note T = string_to_identifier_chars_idempotent
    [of lower_example "[80, 8490, 32, 28, 133, 160, 12288, 45, 120, 304, 33, 233, 90]",
     OF lower_example_no_upper lower_example_fixes]
  have v: "string_to_identifier lower_example [80, 8490, 32, 28, 133, 160, 12288, 45, 120, 304, 33, 233, 90]
     = [112, 107, 95, 95, 120, 105, 122]"
    by (simp add: string_to_identifier_def lower_example_def lower_fragment_def remove_non_word_def
        sub_hyphen_def is_word_char_def is_upper_def is_lower_def is_digit_def is_space_def
        underscore_def hyphen_def codepoints_def)
  have a: "identifier_spec (lower_example [80, 8490, 32, 28, 133, 160, 12288, 45, 120, 304, 33, 233, 90])
     = [112, 107, 95, 95, 120, 105, 122]"
    by (rule trans [OF T [THEN conjunct2, THEN conjunct1, symmetric] v])
  have b: "string_to_identifier lower_example [112, 107, 95, 95, 120, 105, 122]
     = [112, 107, 95, 95, 120, 105, 122]"
    using T [THEN conjunct2, THEN conjunct2] unfolding v .
  have "\<forall>c \<in> set [112, 107, 95, 95, 120, 105, 122]. is_lower c \<or> is_digit c \<or> c = underscore"
    using T [THEN conjunct1] unfolding v .
  then have c: "list_all (\<lambda>c. is_lower c \<or> is_digit c \<or> c = underscore) [112, 107, 95, 95, 120, 105, 122]"
    by (simp only: list_all_iff)
  have d: "codepoints ''pk__xiz'' = [112, 107, 95, 95, 120, 105, 122]"
    by (simp add: string_to_identifier_def lower_example_def lower_fragment_def remove_non_word_def
        sub_hyphen_def is_word_char_def is_upper_def is_lower_def is_digit_def is_space_def
        underscore_def hyphen_def codepoints_def)
  have e: "string_to_identifier lower_example (codepoints ''Pea sdf-43q45,.!24n  pijn'')
     = codepoints ''pea_sdf_43q4524n_pijn''"
    by (simp add: string_to_identifier_def lower_example_def lower_fragment_def remove_non_word_def
        sub_hyphen_def is_word_char_def is_upper_def is_lower_def is_digit_def is_space_def
        underscore_def hyphen_def codepoints_def)
  from v a b c d e show ?thesis
    by (intro conjI)
qed

text \<open>
  Claim C10. For every string, \<^verbatim>\<open>prepend_point_to_extension\<close> returns a string that
  starts with a point; a string that starts with a point already is returned unchanged,
  any other string gets exactly one point in front; and the function is idempotent.
\<close>

theorem prepend_point_to_extension_point:
  "take 1 (prepend_point_to_extension s) = ''.''
   \<and> (take 1 s = ''.'' \<longrightarrow> prepend_point_to_extension s = s)
   \<and> (take 1 s \<noteq> ''.'' \<longrightarrow> prepend_point_to_extension s = CHR ''.'' # s)
   \<and> prepend_point_to_extension (prepend_point_to_extension s) = prepend_point_to_extension s"
  by (cases s) (simp_all add: prepend_point_to_extension_def)

theorem prepend_point_to_extension_witness:
  "take 1 ''.nc'' = ''.'' \<and> prepend_point_to_extension ''.nc'' = ''.nc''
   \<and> take 1 ''nc'' \<noteq> ''.'' \<and> prepend_point_to_extension ''nc'' = ''.nc''
   \<and> take 1 [] \<noteq> ''.'' \<and> prepend_point_to_extension [] = ''.''"
proof -
  have a: "take 1 ''.nc'' = ''.''" and b: "take 1 ''nc'' \<noteq> ''.''"
    and c: "take 1 ([] :: string) \<noteq> ''.''"
    by simp_all
  from a have "prepend_point_to_extension ''.nc'' = ''.nc''"
    using prepend_point_to_extension_point [of "''.nc''"] by blast
  moreover from b have "prepend_point_to_extension ''nc'' = ''.nc''"
    using prepend_point_to_extension_point [of "''nc''"] by blast
  moreover from c have "prepend_point_to_extension [] = ''.''"
    using prepend_point_to_extension_point [of "[]"] by blast
  ultimately show ?thesis
    using a b c by blast
qed

section \<open>Properties of configtreeview.py\<close>

text \<open>
  Claim C1. For every call of \<^verbatim>\<open>setModelData(editor, model, index)\<close>: if the item's
  \<^verbatim>\<open>getEditorValue\<close> raises \<^verbatim>\<open>InvalidInputError\<close>, the error is logged as a warning and
  swallowed (the method returns), the model is the one it was, so its edit-role value at
  the index is unchanged, and no \<^verbatim>\<open>setData\<close> call is made; if it returns a value \<open>v\<close>,
  \<^verbatim>\<open>model.setData(index, v, EditRole)\<close> is called exactly once, and the only call made on
  the item is the \<^verbatim>\<open>getEditorValue\<close> that reads the editor: the item is not written to.
\<close>

theorem setModelData_commit:
  "(cti_getEditorValue env (model_getItem env m index) ed = Inl (InvalidInputError msg) \<longrightarrow>
      setModelData env ed m index =
        (m, [LoggerDebug, ModelGetItem index, CtiGetEditorValue (model_getItem env m index) ed,
             LoggerWarn (InvalidInputError msg)], Inr ())
      \<and> filter isModelSetData (fst (snd (setModelData env ed m index))) = []
      \<and> model_data env (fst (setModelData env ed m index)) index EditRole = model_data env m index EditRole)
   \<and> (cti_getEditorValue env (model_getItem env m index) ed = Inr v \<longrightarrow>
      setModelData env ed m index =
        (model_setData env m index v EditRole,
         [LoggerDebug, ModelGetItem index, CtiGetEditorValue (model_getItem env m index) ed,
          ModelSetData index v EditRole], Inr ())
      \<and> filter isModelSetData (fst (snd (setModelData env ed m index))) = [ModelSetData index v EditRole]
      \<and> filter isCtiCall (fst (snd (setModelData env ed m index)))
          = [CtiGetEditorValue (model_getItem env m index) ed])"
  by (simp add: setModelData_def Let_def)

theorem setModelData_commit_witness:
  "setModelData exampleConfigEnv (QWidget 3) (PyInt 5) (ModelIndex [] 0 1) =
     (PyInt 5, [LoggerDebug, ModelGetItem (ModelIndex [] 0 1), CtiGetEditorValue () (QWidget 3),
                LoggerWarn (InvalidInputError ''no input'')], Inr ())
   \<and> setModelData exampleConfigEnv (CtiEditor 3) (PyInt 5) (ModelIndex [] 0 1) =
     (PyStr ''12'', [LoggerDebug, ModelGetItem (ModelIndex [] 0 1), CtiGetEditorValue () (CtiEditor 3),
                ModelSetData (ModelIndex [] 0 1) (PyStr ''12'') EditRole], Inr ())"
proof -
  have a: "cti_getEditorValue exampleConfigEnv (model_getItem exampleConfigEnv (PyInt 5) (ModelIndex [] 0 1))
             (QWidget 3) = Inl (InvalidInputError ''no input'')"
    by (simp add: exampleConfigEnv_def)
  have b: "cti_getEditorValue exampleConfigEnv (model_getItem exampleConfigEnv (PyInt 5) (ModelIndex [] 0 1))
             (CtiEditor 3) = Inr (PyStr ''12'')"
    by (simp add: exampleConfigEnv_def)
  have "setModelData exampleConfigEnv (QWidget 3) (PyInt 5) (ModelIndex [] 0 1) =
     (PyInt 5, [LoggerDebug, ModelGetItem (ModelIndex [] 0 1),
                CtiGetEditorValue (model_getItem exampleConfigEnv (PyInt 5) (ModelIndex [] 0 1)) (QWidget 3),
                LoggerWarn (InvalidInputError ''no input'')], Inr ())"
    using setModelData_commit [of exampleConfigEnv "PyInt 5" "ModelIndex [] 0 1" "QWidget 3" "''no input''" PyNone] a
    by blast
  moreover have "setModelData exampleConfigEnv (CtiEditor 3) (PyInt 5) (ModelIndex [] 0 1) =
     (model_setData exampleConfigEnv (PyInt 5) (ModelIndex [] 0 1) (PyStr ''12'') EditRole,
      [LoggerDebug, ModelGetItem (ModelIndex [] 0 1),
       CtiGetEditorValue (model_getItem exampleConfigEnv (PyInt 5) (ModelIndex [] 0 1)) (CtiEditor 3),
       ModelSetData (ModelIndex [] 0 1) (PyStr ''12'') EditRole], Inr ())"
    using setModelData_commit [of exampleConfigEnv "PyInt 5" "ModelIndex [] 0 1" "CtiEditor 3" "''x''" "PyStr ''12''"] b
    by blast
  ultimately show ?thesis
    by (simp add: exampleConfigEnv_def)
qed

text \<open>
  Claim C6. For every editor and every hint, \<^verbatim>\<open>ConfigTreeView.closeEditor(editor, hint)\<close>
  first does what the delegate's \<^verbatim>\<open>finalizeEditor(editor)\<close> does and then calls the
  \<^verbatim>\<open>closeEditor\<close> of the base class; \<^verbatim>\<open>finalizeEditor\<close> calls \<^verbatim>\<open>editor.finalize()\<close> if and
  only if the editor is a \<^verbatim>\<open>CtiEditor\<close>, and finalizes no other editor.
\<close>

theorem closeEditor_finalizes_first:
  "closeEditor ed hint = finalizeEditor ed @ [SuperCloseEditor ed hint]
   \<and> closeEditor (CtiEditor n) hint = [EditorFinalize (CtiEditor n), SuperCloseEditor (CtiEditor n) hint]
   \<and> closeEditor (QWidget n) hint = [LoggerDebug, SuperCloseEditor (QWidget n) hint]
   \<and> (EditorFinalize ed \<in> set (finalizeEditor ed) \<longleftrightarrow> isinstance_CtiEditor ed)
   \<and> (\<forall>e. EditorFinalize e \<in> set (finalizeEditor ed) \<longrightarrow> isinstance_CtiEditor ed \<and> e = ed)"
  by (simp add: closeEditor_def finalizeEditor_def)

theorem closeEditor_finalizes_first_witness:
  "closeEditor (CtiEditor 1) NoHint = [EditorFinalize (CtiEditor 1), SuperCloseEditor (CtiEditor 1) NoHint]
   \<and> isinstance_CtiEditor (CtiEditor 1)
   \<and> EditorFinalize (CtiEditor 1) \<in> set (finalizeEditor (CtiEditor 1))
   \<and> EditorFinalize (QWidget 2) \<notin> set (finalizeEditor (QWidget 2))"
proof -
  note T = closeEditor_finalizes_first [of "CtiEditor 1" NoHint 1]
  note U = closeEditor_finalizes_first [of "QWidget 2" NoHint 2]
  have i: "isinstance_CtiEditor (CtiEditor 1)" and n: "\<not> isinstance_CtiEditor (QWidget 2)"
    by simp_all
  from T i have "EditorFinalize (CtiEditor 1) \<in> set (finalizeEditor (CtiEditor 1))"
    by blast
  moreover from U n have "EditorFinalize (QWidget 2) \<notin> set (finalizeEditor (QWidget 2))"
    by blast
  ultimately show ?thesis
    using T i by blast
qed

text \<open>
  Claim C8. For every \<^verbatim>\<open>paint(painter, option, index)\<close> of the delegate: the base class
  paints if and only if the index is not in the value column or the item's
  \<^verbatim>\<open>paintDisplayValue\<close> returns false; in the value column the edit-role value is first
  fetched through the model, then the item, then the item is asked to paint that value;
  outside the value column only the base class paints.
\<close>

theorem paint_standard_iff:
  "(SuperPaint index \<in> set (paint env m index) \<longleftrightarrow>
      column index \<noteq> COL_VALUE env
      \<or> \<not> cti_paintDisplayValue env (model_getItem env m index) (model_data env m index EditRole))
   \<and> (column index = COL_VALUE env \<longrightarrow>
        take 3 (paint env m index) =
          [ModelData index EditRole, ModelGetItem index,
           CtiPaintDisplayValue (model_getItem env m index) (model_data env m index EditRole)])
   \<and> (column index \<noteq> COL_VALUE env \<longrightarrow> paint env m index = [SuperPaint index])
   \<and> length (filter (\<lambda>c. c = SuperPaint index) (paint env m index)) \<le> 1"
  by (auto simp: paint_def Let_def)

theorem paint_standard_iff_witness:
  "column (ModelIndex [] 0 1) = COL_VALUE exampleConfigEnv
   \<and> SuperPaint (ModelIndex [] 0 1) \<notin> set (paint exampleConfigEnv (PyBool True) (ModelIndex [] 0 1))
   \<and> SuperPaint (ModelIndex [] 0 1) \<in> set (paint exampleConfigEnv (PyInt 5) (ModelIndex [] 0 1))
   \<and> column (ModelIndex [] 0 0) \<noteq> COL_VALUE exampleConfigEnv
   \<and> paint exampleConfigEnv (PyBool True) (ModelIndex [] 0 0) = [SuperPaint (ModelIndex [] 0 0)]"
proof -
  have c1: "column (ModelIndex [] 0 1) = COL_VALUE exampleConfigEnv"
    and c0: "column (ModelIndex [] 0 0) \<noteq> COL_VALUE exampleConfigEnv"
    by (simp_all add: exampleConfigEnv_def)
  have p: "cti_paintDisplayValue exampleConfigEnv
             (model_getItem exampleConfigEnv (PyBool True) (ModelIndex [] 0 1))
             (model_data exampleConfigEnv (PyBool True) (ModelIndex [] 0 1) EditRole)"
    and q: "\<not> cti_paintDisplayValue exampleConfigEnv
             (model_getItem exampleConfigEnv (PyInt 5) (ModelIndex [] 0 1))
             (model_data exampleConfigEnv (PyInt 5) (ModelIndex [] 0 1) EditRole)"
    by (simp_all add: exampleConfigEnv_def)
  from c1 p have "SuperPaint (ModelIndex [] 0 1) \<notin> set (paint exampleConfigEnv (PyBool True) (ModelIndex [] 0 1))"
    using paint_standard_iff [of "ModelIndex [] 0 1" exampleConfigEnv "PyBool True"] by blast
  moreover from q have "SuperPaint (ModelIndex [] 0 1) \<in> set (paint exampleConfigEnv (PyInt 5) (ModelIndex [] 0 1))"
    using paint_standard_iff [of "ModelIndex [] 0 1" exampleConfigEnv "PyInt 5"] by blast
  moreover from c0 have "paint exampleConfigEnv (PyBool True) (ModelIndex [] 0 0) = [SuperPaint (ModelIndex [] 0 0)]"
    using paint_standard_iff [of "ModelIndex [] 0 0" exampleConfigEnv "PyBool True"] by blast
  ultimately show ?thesis
    using c1 c0 by blast
qed

section \<open>Properties of repotreeview.py\<close>

subsection \<open>Items, paths and indices\<close>

lemma childItems_setChildItems [simp]: "childItems (setChildItems cs t) = cs"
  by (cases t) simp
lemma nodeId_setChildItems [simp]: "nodeId (setChildItems cs t) = nodeId t"
  by (cases t) simp
lemma rtiClass_setChildItems [simp]: "rtiClass (setChildItems cs t) = rtiClass t"
  by (cases t) simp
lemma fileName_setChildItems [simp]: "fileName (setChildItems cs t) = fileName t"
  by (cases t) simp
lemma parentItem_setChildItems [simp]: "parentItem (setChildItems cs t) = parentItem t"
  by (cases t) simp
lemma setChildItems_twice [simp]: "setChildItems cs (setChildItems ds t) = setChildItems cs t"
  by (cases t) simp
lemma setChildItems_same [simp]: "setChildItems (childItems t) t = t"
  by (cases t) simp
lemma childItems_setParentItem [simp]: "childItems (setParentItem p t) = childItems t"
  by (cases t) simp
lemma nodeId_setParentItem [simp]: "nodeId (setParentItem p t) = nodeId t"
  by (cases t) simp
lemma rtiClass_setParentItem [simp]: "rtiClass (setParentItem p t) = rtiClass t"
  by (cases t) simp
lemma fileName_setParentItem [simp]: "fileName (setParentItem p t) = fileName t"
  by (cases t) simp
lemma parentItem_setParentItem [simp]: "parentItem (setParentItem p t) = p"
  by (cases t) simp

lemma subtreeIds_eq: "subtreeIds t = insert (nodeId t) (descendantIds t)"
  by (cases t) (simp add: descendantIds_def)

lemma itemAt_append:
  "itemAt (p @ q) t = (case itemAt p t of None \<Rightarrow> None | Some x \<Rightarrow> itemAt q x)"
  by (induction p arbitrary: t) simp_all

lemma itemAt_snoc_Some:
  "itemAt (p @ [r]) t = Some x \<longleftrightarrow>
     (\<exists>par. itemAt p t = Some par \<and> r < length (childItems par) \<and> childItems par ! r = x)"
  by (auto simp: itemAt_append split: option.splits)

lemma itemAt_updateAt_same:
  "itemAt p t = Some x \<Longrightarrow> itemAt p (updateAt p f t) = Some (f x)"
  by (induction p arbitrary: t) (auto split: if_splits)

lemma updateAt_updateAt:
  "updateAt p g (updateAt p f t) = updateAt p (\<lambda>x. g (f x)) t"
  by (induction p arbitrary: t) simp_all

lemma updateAt_append:
  "updateAt (p @ q) f t = updateAt p (updateAt q f) t"
  by (induction p arbitrary: t) simp_all

lemma itemPath_parent [simp]: "itemPath (parent (ModelIndex pp r c)) = pp"
  by simp

lemma isValid_parent [simp]: "isValid (parent (ModelIndex pp r c)) \<longleftrightarrow> pp \<noteq> []"
  by simp

lemma findTopLevelItemIndex_valid:
  "findTopLevelItemIndex (ModelIndex pp r c) =
     (if pp = [] then ModelIndex [] r c else ModelIndex [] (hd pp) 0)"
proof (induction "length pp" arbitrary: pp r c)
  case 0
  then show ?case by simp
next
  case (Suc n)
  then have ne: "pp \<noteq> []" by auto
  have len: "n = length (butlast pp)" using Suc(2) by simp
  have "findTopLevelItemIndex (ModelIndex pp r c) = findTopLevelItemIndex (ModelIndex (butlast pp) (last pp) 0)"
    using ne by simp
  also have "\<dots> = (if butlast pp = [] then ModelIndex [] (last pp) 0 else ModelIndex [] (hd (butlast pp)) 0)"
    using Suc(1)[OF len] .
  also have "\<dots> = ModelIndex [] (hd pp) 0"
    using ne by (cases pp) (auto)
  finally show ?case using ne by simp
qed

lemma findTopLevelItemIndex_col0:
  "findTopLevelItemIndex (ModelIndex pp r 0) = ModelIndex [] (hd (pp @ [r])) 0"
  by (cases pp) (simp_all add: findTopLevelItemIndex_valid del: findTopLevelItemIndex.simps)

declare findTopLevelItemIndex.simps [simp del]

lemma selectionState_removeAllChildrenAtIndex:
  "removeAllChildrenAtIndex w index = Some w1 \<Longrightarrow> selectionState w1 = selectionState w"
  by (auto simp: removeAllChildrenAtIndex_def selectionState_def split: option.splits)

lemma selectionState_setExpanded [simp]:
  "selectionState (setExpanded env w index flag) = selectionState w"
  by (simp add: setExpanded_def selectionState_def Let_def split: option.splits)

lemma selectionState_rti_open [simp]: "selectionState (rti_open w item) = selectionState w"
  by (simp add: rti_open_def selectionState_def)

lemma selectionState_rti_close [simp]: "selectionState (rti_close w item) = selectionState w"
  by (simp add: rti_close_def selectionState_def)

lemma selectionState_openCurrentItem [simp]:
  "selectionState (snd (openCurrentItem env w)) = selectionState w"
  by (simp add: openCurrentItem_def split: sum.splits prod.splits)

lemma selectionState_closeCurrentItem [simp]:
  "selectionState (snd (closeCurrentItem env w)) = selectionState w"
  by (auto simp: closeCurrentItem_def selectionState_removeAllChildrenAtIndex
      split: sum.splits prod.splits option.splits)

lemma columnCount_setCurrentIndex [simp]: "columnCount (setCurrentIndex w index) = columnCount w"
  by (simp add: setCurrentIndex_def selectionModel_setCurrentIndex_def Let_def)


lemma currentIndex_setCurrentIndex [simp]: "currentIndex (setCurrentIndex w index) = index"
  by (simp add: setCurrentIndex_def selectionModel_setCurrentIndex_def Let_def)



lemma rowIndexes_valid:
  "rowIndexes n (ModelIndex pp r c) = {ModelIndex pp r k | k. k < n}"
  by auto

subsection \<open>Current item and selection\<close>


lemma onlySelectingCalls_refl [simp]: "onlySelectingCalls w w"
  by (simp add: onlySelectingCalls_def)


















subsection \<open>Assertions\<close>

text \<open>
  Claim C7. \<^verbatim>\<open>createEditor\<close> on an invalid index raises the \<^verbatim>\<open>AssertionError\<close> before it
  asks the model for an item or calls an item; on a valid index it fetches the item and
  returns what the item's \<^verbatim>\<open>createEditor\<close> returns. \<^verbatim>\<open>loadRepoTreeItem\<close> on an item that
  has a parent raises the \<^verbatim>\<open>AssertionError\<close> and leaves the state as it was (nothing is
  inserted); on an item without a parent the assertion does not fire: the method inserts
  the item, sets its expanded state and returns the index the model gave, and loading at
  the top level with no position returns the index after the last top-level item.
\<close>

theorem precondition_assertions:
  "(\<not> isValid index \<longrightarrow>
      snd (createEditor cenv m index) = Inl (AssertionError ''sanity check failed: invalid index'')
      \<and> filter isModelGetItem (fst (createEditor cenv m index)) = []
      \<and> filter isCtiCall (fst (createEditor cenv m index)) = [])
   \<and> (isValid index \<longrightarrow>
      createEditor cenv m index =
        ([LoggerDebug, ModelGetItem index, CtiCreateEditor (model_getItem cenv m index)],
         cti_createEditor cenv (model_getItem cenv m index)))
   \<and> (parentItem item \<noteq> None \<longrightarrow>
      loadRepoTreeItem env w item expand position parentIndex = (Inl (AssertionError ''repoTreeItem''), w))
   \<and> (parentItem item = None \<longrightarrow>
      loadRepoTreeItem env w item expand position parentIndex =
        (case insertItem w item position parentIndex of
           None \<Rightarrow> (Inl NotInModel, w)
         | Some (storeRootIndex, w1) \<Rightarrow> (Inr storeRootIndex, setExpanded env w1 storeRootIndex expand)))
   \<and> (parentItem item = None \<longrightarrow>
      fst (loadRepoTreeItem env w item expand None InvalidIndex)
        = Inr (ModelIndex [] (length (childItems (rootItem w))) 0))"
  by (simp add: createEditor_def loadRepoTreeItem_def Let_def insertItem_def getItem_def)

theorem precondition_assertions_witness:
  "\<not> isValid InvalidIndex
   \<and> snd (createEditor exampleConfigEnv PyNone InvalidIndex)
       = Inl (AssertionError ''sanity check failed: invalid index'')
   \<and> isValid (ModelIndex [] 0 1)
   \<and> createEditor exampleConfigEnv PyNone (ModelIndex [] 0 1)
       = ([LoggerDebug, ModelGetItem (ModelIndex [] 0 1), CtiCreateEditor ()], Inr (CtiEditor 0))
   \<and> parentItem (Rti 5 ''NcdfFileRti'' ''c.nc'' (Some 1) []) \<noteq> None
   \<and> loadRepoTreeItem exampleRepoEnv exampleView (Rti 5 ''NcdfFileRti'' ''c.nc'' (Some 1) []) False None InvalidIndex
       = (Inl (AssertionError ''repoTreeItem''), exampleView)
   \<and> parentItem (Rti 5 ''NcdfFileRti'' ''c.nc'' None []) = None
   \<and> fst (loadRepoTreeItem exampleRepoEnv exampleView (Rti 5 ''NcdfFileRti'' ''c.nc'' None []) False None InvalidIndex)
       = Inr (ModelIndex [] 2 0)"
proof -
  note A = precondition_assertions [of InvalidIndex exampleConfigEnv PyNone
      "Rti 5 ''NcdfFileRti'' ''c.nc'' (Some 1) []" exampleRepoEnv exampleView False None InvalidIndex]
  note B = precondition_assertions [of "ModelIndex [] 0 1" exampleConfigEnv PyNone
      "Rti 5 ''NcdfFileRti'' ''c.nc'' None []" exampleRepoEnv exampleView False None InvalidIndex]
  have a: "\<not> isValid InvalidIndex" and b: "isValid (ModelIndex [] 0 1)"
    and c: "parentItem (Rti 5 ''NcdfFileRti'' ''c.nc'' (Some 1) []) \<noteq> None"
    and d: "parentItem (Rti 5 ''NcdfFileRti'' ''c.nc'' None []) = None"
    by simp_all
  have l: "length (childItems (rootItem exampleView)) = 2"
    by (simp add: exampleView_def RepoTreeView_def exampleRoot_def)
  have e: "model_getItem exampleConfigEnv PyNone (ModelIndex [] 0 1) = ()"
    and f: "cti_createEditor exampleConfigEnv () = Inr (CtiEditor 0)"
    by (simp_all add: exampleConfigEnv_def)
  from A a c have 1: "snd (createEditor exampleConfigEnv PyNone InvalidIndex)
       = Inl (AssertionError ''sanity check failed: invalid index'')"
    and 2: "loadRepoTreeItem exampleRepoEnv exampleView (Rti 5 ''NcdfFileRti'' ''c.nc'' (Some 1) []) False None InvalidIndex
       = (Inl (AssertionError ''repoTreeItem''), exampleView)"
    by blast+
  from B b d have 3: "createEditor exampleConfigEnv PyNone (ModelIndex [] 0 1)
       = ([LoggerDebug, ModelGetItem (ModelIndex [] 0 1),
           CtiCreateEditor (model_getItem exampleConfigEnv PyNone (ModelIndex [] 0 1))],
          cti_createEditor exampleConfigEnv (model_getItem exampleConfigEnv PyNone (ModelIndex [] 0 1)))"
    and 4: "fst (loadRepoTreeItem exampleRepoEnv exampleView (Rti 5 ''NcdfFileRti'' ''c.nc'' None []) False None InvalidIndex)
       = Inr (ModelIndex [] (length (childItems (rootItem exampleView))) 0)"
    by blast+
  from 1 2 3 4 a b c d show ?thesis
    unfolding l e f by (intro conjI)
qed

subsection \<open>Removing the file of the current item\<close>

lemma itemAt_Cons_Some: "itemAt (k # p) t = Some x \<Longrightarrow> k < length (childItems t)"
  by (simp split: if_splits)

lemma getItem_top_level:
  assumes "getItem w (ModelIndex pp r c) = Some x"
  shows "hd (pp @ [r]) < length (childItems (rootItem w))"
proof -
  obtain k p where "pp @ [r] = k # p" by (cases pp) auto
  with assms show ?thesis
    by (auto simp: getItem_def split: if_splits)
qed

lemma getCurrentIndex_valid:
  "currentIndex w = ModelIndex pp r c \<Longrightarrow> getCurrentIndex w = ModelIndex pp r 0"
  by (simp add: getCurrentIndex_def)

lemma deleteItemByIndex_top_level:
  assumes "k < length (childItems (rootItem w))"
  shows "deleteItemByIndex w (ModelIndex [] k c) =
     Some (w\<lparr>rootItem := setChildItems (take k (childItems (rootItem w)) @ drop (Suc k) (childItems (rootItem w)))
                           (rootItem w),
            live := live w - subtreeIds (childItems (rootItem w) ! k),
            callLog := callLog w @ [DeleteItemByIndex (ModelIndex [] k c)]\<rparr>)"
  using assms by (simp add: deleteItemByIndex_def getItem_def)

lemma removeCurrentFile_valid:
  assumes cur: "currentIndex w = ModelIndex pp r c"
    and ex: "getItem w (currentIndex w) \<noteq> None"
  shows "removeCurrentFile w =
     (Inr (),
      w\<lparr>rootItem := setChildItems
           (take (hd (pp @ [r])) (childItems (rootItem w)) @ drop (Suc (hd (pp @ [r]))) (childItems (rootItem w)))
           (rootItem w),
        live := live w - subtreeIds (childItems (rootItem w) ! hd (pp @ [r])),
        callLog := callLog w @ [DeleteItemByIndex (ModelIndex [] (hd (pp @ [r])) 0)]\<rparr>)"
proof -
  from ex cur obtain x where "getItem w (ModelIndex pp r c) = Some x" by auto
  then have k: "hd (pp @ [r]) < length (childItems (rootItem w))"
    by (rule getItem_top_level)
  have top: "findTopLevelItemIndex (getCurrentIndex w) = ModelIndex [] (hd (pp @ [r])) 0"
    using cur by (simp add: getCurrentIndex_valid findTopLevelItemIndex_col0)
  show ?thesis
    unfolding removeCurrentFile_def Let_def top
    by (simp add: deleteItemByIndex_top_level [OF k])
qed

text \<open>
  Claim C5. For every tree and every two valid current indices \<open>i\<close> and \<open>j\<close> that locate
  nodes of the tree under the same top-level node, \<^verbatim>\<open>removeCurrentFile()\<close> returns and
  deletes the same node: the top-level item in the row where both paths start is taken
  out of the children of the root and the resources of its subtree are closed, whichever
  of the two was current.
\<close>

theorem removeCurrentFile_top_level_ancestor:
  assumes "isValid i" and "isValid j"
    and "getItem w i \<noteq> None" and "getItem w j \<noteq> None"
    and "hd (itemPath i) = hd (itemPath j)"
  shows "fst (removeCurrentFile (w\<lparr>currentIndex := i\<rparr>)) = Inr ()
     \<and> fst (removeCurrentFile (w\<lparr>currentIndex := j\<rparr>)) = Inr ()
     \<and> rootItem (snd (removeCurrentFile (w\<lparr>currentIndex := i\<rparr>)))
        = setChildItems (take (hd (itemPath i)) (childItems (rootItem w))
                         @ drop (Suc (hd (itemPath i))) (childItems (rootItem w))) (rootItem w)
     \<and> live (snd (removeCurrentFile (w\<lparr>currentIndex := i\<rparr>)))
        = live w - subtreeIds (childItems (rootItem w) ! hd (itemPath i))
     \<and> callLog (snd (removeCurrentFile (w\<lparr>currentIndex := i\<rparr>)))
        = callLog w @ [DeleteItemByIndex (ModelIndex [] (hd (itemPath i)) 0)]
     \<and> rootItem (snd (removeCurrentFile (w\<lparr>currentIndex := i\<rparr>)))
        = rootItem (snd (removeCurrentFile (w\<lparr>currentIndex := j\<rparr>)))
     \<and> live (snd (removeCurrentFile (w\<lparr>currentIndex := i\<rparr>)))
        = live (snd (removeCurrentFile (w\<lparr>currentIndex := j\<rparr>)))
     \<and> callLog (snd (removeCurrentFile (w\<lparr>currentIndex := i\<rparr>)))
        = callLog (snd (removeCurrentFile (w\<lparr>currentIndex := j\<rparr>)))"
proof -
  from assms(1) obtain pp r c where i: "i = ModelIndex pp r c" by (cases i) auto
  from assms(2) obtain qq s d where j: "j = ModelIndex qq s d" by (cases j) auto
  have gi: "getItem (w\<lparr>currentIndex := i\<rparr>) (currentIndex (w\<lparr>currentIndex := i\<rparr>)) \<noteq> None"
    using assms(3) by (simp add: getItem_def)
  have gj: "getItem (w\<lparr>currentIndex := j\<rparr>) (currentIndex (w\<lparr>currentIndex := j\<rparr>)) \<noteq> None"
    using assms(4) by (simp add: getItem_def)
  have ri: "currentIndex (w\<lparr>currentIndex := i\<rparr>) = ModelIndex pp r c" using i by simp
  have rj: "currentIndex (w\<lparr>currentIndex := j\<rparr>) = ModelIndex qq s d" using j by simp
  have h: "hd (pp @ [r]) = hd (qq @ [s])" using assms(5) i j by simp
  show ?thesis
    unfolding removeCurrentFile_valid [OF ri gi] removeCurrentFile_valid [OF rj gj]
    using h i by simp
qed

theorem removeCurrentFile_top_level_ancestor_witness:
  "isValid (ModelIndex [0] 0 1) \<and> isValid (ModelIndex [] 0 0)
   \<and> getItem exampleView (ModelIndex [0] 0 1) \<noteq> None
   \<and> getItem exampleView (ModelIndex [] 0 0) \<noteq> None
   \<and> hd (itemPath (ModelIndex [0] 0 1)) = hd (itemPath (ModelIndex [] 0 0))
   \<and> fst (removeCurrentFile (exampleView\<lparr>currentIndex := ModelIndex [0] 0 1\<rparr>)) = Inr ()
   \<and> rootItem (snd (removeCurrentFile (exampleView\<lparr>currentIndex := ModelIndex [0] 0 1\<rparr>)))
       = Rti 0 ''root'' [] None [Rti 3 ''NcdfFileRti'' ''b.nc'' None []]
   \<and> rootItem (snd (removeCurrentFile (exampleView\<lparr>currentIndex := ModelIndex [] 0 0\<rparr>)))
       = Rti 0 ''root'' [] None [Rti 3 ''NcdfFileRti'' ''b.nc'' None []]
   \<and> live (snd (removeCurrentFile (exampleView\<lparr>currentIndex := ModelIndex [0] 0 1\<rparr>))) = {}
   \<and> live (snd (removeCurrentFile (exampleView\<lparr>currentIndex := ModelIndex [] 0 0\<rparr>))) = {}"
proof -
  have a: "isValid (ModelIndex [0] 0 1)" and b: "isValid (ModelIndex [] 0 0)"
    and c: "getItem exampleView (ModelIndex [0] 0 1) \<noteq> None"
    and d: "getItem exampleView (ModelIndex [] 0 0) \<noteq> None"
    and e: "hd (itemPath (ModelIndex [0] 0 1)) = hd (itemPath (ModelIndex [] 0 0))"
    by (simp_all add: getItem_def exampleView_def RepoTreeView_def exampleRoot_def)
  have r: "setChildItems (take (hd (itemPath (ModelIndex [0] 0 1))) (childItems (rootItem exampleView))
                         @ drop (Suc (hd (itemPath (ModelIndex [0] 0 1)))) (childItems (rootItem exampleView)))
             (rootItem exampleView)
           = Rti 0 ''root'' [] None [Rti 3 ''NcdfFileRti'' ''b.nc'' None []]"
    by (simp add: exampleView_def RepoTreeView_def exampleRoot_def)
  have l: "live exampleView - subtreeIds (childItems (rootItem exampleView) ! hd (itemPath (ModelIndex [0] 0 1))) = {}"
    by (simp add: exampleView_def RepoTreeView_def exampleRoot_def)
  note T = removeCurrentFile_top_level_ancestor [OF a b c d e, unfolded r l]
  from T have 1: "fst (removeCurrentFile (exampleView\<lparr>currentIndex := ModelIndex [0] 0 1\<rparr>)) = Inr ()"
    and 2: "rootItem (snd (removeCurrentFile (exampleView\<lparr>currentIndex := ModelIndex [0] 0 1\<rparr>)))
       = Rti 0 ''root'' [] None [Rti 3 ''NcdfFileRti'' ''b.nc'' None []]"
    and 3: "live (snd (removeCurrentFile (exampleView\<lparr>currentIndex := ModelIndex [0] 0 1\<rparr>))) = {}"
    and 4: "rootItem (snd (removeCurrentFile (exampleView\<lparr>currentIndex := ModelIndex [0] 0 1\<rparr>)))
        = rootItem (snd (removeCurrentFile (exampleView\<lparr>currentIndex := ModelIndex [] 0 0\<rparr>)))"
    and 5: "live (snd (removeCurrentFile (exampleView\<lparr>currentIndex := ModelIndex [0] 0 1\<rparr>)))
        = live (snd (removeCurrentFile (exampleView\<lparr>currentIndex := ModelIndex [] 0 0\<rparr>)))"
    by blast+
  from 4 2 have 6: "rootItem (snd (removeCurrentFile (exampleView\<lparr>currentIndex := ModelIndex [] 0 0\<rparr>)))
       = Rti 0 ''root'' [] None [Rti 3 ''NcdfFileRti'' ''b.nc'' None []]"
    by (simp only:)
  from 5 3 have 7: "live (snd (removeCurrentFile (exampleView\<lparr>currentIndex := ModelIndex [] 0 0\<rparr>))) = {}"
    by (simp only:)
  from a b c d e 1 2 6 3 7 show ?thesis
    by (intro conjI)
qed

subsection \<open>Opening and closing the current item\<close>

lemma getCurrentItem_Inr:
  "getCurrentItem w = Inr (item, cur) \<longleftrightarrow> cur = getCurrentIndex w \<and> getItem w cur = Some item"
  by (auto simp: getCurrentItem_def Let_def split: option.splits)

lemma getCurrentIndex_cong:
  "selectionState w1 = selectionState w \<Longrightarrow> getCurrentIndex w1 = getCurrentIndex w"
  by (simp add: selectionState_def getCurrentIndex_def)

lemma callLog_setExpanded [simp]:
  "callLog (setExpanded env w index flag) = callLog w @ [SetExpanded index flag]"
  by (simp add: setExpanded_def Let_def split: option.splits)

lemma rootItem_collapse [simp]: "rootItem (setExpanded env w index False) = rootItem w"
  by (simp add: setExpanded_def Let_def split: option.splits)

lemma live_collapse [simp]: "live (setExpanded env w index False) = live w"
  by (simp add: setExpanded_def Let_def split: option.splits)

lemma getItem_collapse [simp]: "getItem (setExpanded env w index False) i = getItem w i"
  by (simp add: getItem_def)

lemma getItem_expand:
  assumes "getItem w index = Some item"
  shows "\<exists>item1. getItem (setExpanded env w index True) index = Some item1
           \<and> nodeId item1 = nodeId item"
  using assms
  by (auto simp: setExpanded_def Let_def getItem_def itemAt_updateAt_same)

lemma getItem_rti_open [simp]: "getItem (rti_open w item) i = getItem w i"
  by (simp add: getItem_def rti_open_def)

lemma getItem_rti_close [simp]: "getItem (rti_close w item) i = getItem w i"
  by (simp add: getItem_def rti_close_def)

lemma closeCurrentItem_resolved:
  assumes "getCurrentItem w = Inr (item, cur)"
  shows "fst (closeCurrentItem env w) = Inr ()"
    and "callLog (snd (closeCurrentItem env w)) =
           callLog w @ [RemoveAllChildrenAtIndex cur, ItemClose (nodeId item), SetExpanded cur False]"
    and "getItem (snd (closeCurrentItem env w)) cur = Some (setChildItems [] item)"
    and "live (snd (closeCurrentItem env w)) = live w - subtreeIds item"
    and "getCurrentIndex (snd (closeCurrentItem env w)) = cur"
proof -
  from assms have c: "cur = getCurrentIndex w" and g: "getItem w cur = Some item"
    unfolding getCurrentItem_Inr by blast+
  define w1 where "w1 = w\<lparr>rootItem := updateAt (itemPath cur) (setChildItems []) (rootItem w),
                  live := live w - descendantIds item,
                  callLog := callLog w @ [RemoveAllChildrenAtIndex cur]\<rparr>"
  have r: "removeAllChildrenAtIndex w cur = Some w1"
    using g by (simp add: removeAllChildrenAtIndex_def w1_def)
  have e: "closeCurrentItem env w = (Inr (), setExpanded env (rti_close w1 item) cur False)"
    using assms r by (simp add: closeCurrentItem_def)
  show "fst (closeCurrentItem env w) = Inr ()"
    by (simp add: e)
  show "callLog (snd (closeCurrentItem env w)) =
           callLog w @ [RemoveAllChildrenAtIndex cur, ItemClose (nodeId item), SetExpanded cur False]"
    by (simp add: e rti_close_def w1_def)
  show "getItem (snd (closeCurrentItem env w)) cur = Some (setChildItems [] item)"
    using g by (simp add: e) (simp add: getItem_def w1_def itemAt_updateAt_same)
  show "live (snd (closeCurrentItem env w)) = live w - subtreeIds item"
    by (auto simp: e rti_close_def w1_def subtreeIds_eq)
  show "getCurrentIndex (snd (closeCurrentItem env w)) = cur"
    using getCurrentIndex_cong [OF selectionState_closeCurrentItem] c by simp
qed

lemma openCurrentItem_resolved:
  assumes "getCurrentItem w = Inr (item, cur)"
  shows "fst (openCurrentItem env w) = Inr ()"
    and "callLog (snd (openCurrentItem env w)) = callLog w @ [ItemOpen (nodeId item), SetExpanded cur True]"
    and "\<exists>item1. getCurrentItem (snd (openCurrentItem env w)) = Inr (item1, cur)
           \<and> nodeId item1 = nodeId item"
    and "nodeId item \<in> live (snd (openCurrentItem env w))"
proof -
  from assms have c: "cur = getCurrentIndex w" and g: "getItem w cur = Some item"
    unfolding getCurrentItem_Inr by blast+
  have e: "openCurrentItem env w = (Inr (), setExpanded env (rti_open w item) cur True)"
    using assms by (simp add: openCurrentItem_def)
  show "fst (openCurrentItem env w) = Inr ()"
    by (simp add: e)
  show "callLog (snd (openCurrentItem env w)) = callLog w @ [ItemOpen (nodeId item), SetExpanded cur True]"
    by (simp add: e rti_open_def)
  have "getCurrentIndex (snd (openCurrentItem env w)) = cur"
    using getCurrentIndex_cong [OF selectionState_openCurrentItem] c by simp
  moreover have "\<exists>item1. getItem (setExpanded env (rti_open w item) cur True) cur = Some item1
           \<and> nodeId item1 = nodeId item"
    using g by (intro getItem_expand) simp
  ultimately show "\<exists>item1. getCurrentItem (snd (openCurrentItem env w)) = Inr (item1, cur)
           \<and> nodeId item1 = nodeId item"
    by (auto simp: getCurrentItem_Inr e)
  show "nodeId item \<in> live (snd (openCurrentItem env w))"
    by (simp add: e setExpanded_def Let_def rti_open_def split: option.splits)
qed

text \<open>
  Claim C4. When the current index locates an item, \<^verbatim>\<open>closeCurrentItem()\<close> first removes
  all children of the item from the model (which closes them), then closes the item,
  then collapses its node, in this order; afterwards the item has no children and no
  resource of the item or of a node that was below it is open. In particular, after
  \<^verbatim>\<open>openCurrentItem()\<close> followed by \<^verbatim>\<open>closeCurrentItem()\<close> no resource of a descendant
  that the item had when it was closed is open, whatever was fetched on expansion.
\<close>

theorem closeCurrentItem_order_release:
  assumes "getCurrentItem w = Inr (item, cur)"
  shows "fst (closeCurrentItem env w) = Inr ()
    \<and> callLog (snd (closeCurrentItem env w))
        = callLog w @ [RemoveAllChildrenAtIndex cur, ItemClose (nodeId item), SetExpanded cur False]
    \<and> getItem (snd (closeCurrentItem env w)) cur = Some (setChildItems [] item)
    \<and> live (snd (closeCurrentItem env w)) = live w - subtreeIds item
    \<and> fst (openCurrentItem env w) = Inr ()
    \<and> fst (closeCurrentItem env (snd (openCurrentItem env w))) = Inr ()
    \<and> (\<exists>item1. getCurrentItem (snd (openCurrentItem env w)) = Inr (item1, cur)
          \<and> nodeId item1 = nodeId item
          \<and> live (snd (closeCurrentItem env (snd (openCurrentItem env w)))) \<inter> descendantIds item1 = {}
          \<and> nodeId item \<notin> live (snd (closeCurrentItem env (snd (openCurrentItem env w))))
          \<and> getItem (snd (closeCurrentItem env (snd (openCurrentItem env w)))) cur
              = Some (setChildItems [] item1))
    \<and> callLog (snd (closeCurrentItem env (snd (openCurrentItem env w))))
        = callLog w @ [ItemOpen (nodeId item), SetExpanded cur True,
                       RemoveAllChildrenAtIndex cur, ItemClose (nodeId item), SetExpanded cur False]"
proof -
  note c = closeCurrentItem_resolved [OF assms, of env]
  note p = openCurrentItem_resolved [OF assms, of env]
  from p(3) obtain item1 where i1: "getCurrentItem (snd (openCurrentItem env w)) = Inr (item1, cur)"
    and n1: "nodeId item1 = nodeId item"
    by blast
  note c1 = closeCurrentItem_resolved [OF i1, of env]
  have "live (snd (closeCurrentItem env (snd (openCurrentItem env w)))) \<inter> descendantIds item1 = {}"
    and "nodeId item \<notin> live (snd (closeCurrentItem env (snd (openCurrentItem env w))))"
    using c1(4) n1 by (auto simp: subtreeIds_eq)
  with i1 n1 c1(3) have ex: "\<exists>item1. getCurrentItem (snd (openCurrentItem env w)) = Inr (item1, cur)
          \<and> nodeId item1 = nodeId item
          \<and> live (snd (closeCurrentItem env (snd (openCurrentItem env w)))) \<inter> descendantIds item1 = {}
          \<and> nodeId item \<notin> live (snd (closeCurrentItem env (snd (openCurrentItem env w))))
          \<and> getItem (snd (closeCurrentItem env (snd (openCurrentItem env w)))) cur
              = Some (setChildItems [] item1)"
    by blast
  have lg: "callLog (snd (closeCurrentItem env (snd (openCurrentItem env w))))
        = callLog w @ [ItemOpen (nodeId item), SetExpanded cur True,
                       RemoveAllChildrenAtIndex cur, ItemClose (nodeId item), SetExpanded cur False]"
    using c1(2) p(2) n1 by simp
  from c(1-4) p(1) c1(1) ex lg show ?thesis
    by (intro conjI)
qed

theorem closeCurrentItem_order_release_witness:
  "getCurrentItem (setCurrentIndex exampleView (ModelIndex [] 0 1))
     = Inr (Rti 1 ''NcdfFileRti'' ''a.nc'' None [Rti 2 ''NcdfVariableRti'' ''a.nc'' (Some 1) []],
            ModelIndex [] 0 0)
   \<and> fst (closeCurrentItem exampleRepoEnv (setCurrentIndex exampleView (ModelIndex [] 0 1))) = Inr ()
   \<and> getItem (snd (closeCurrentItem exampleRepoEnv (setCurrentIndex exampleView (ModelIndex [] 0 1))))
        (ModelIndex [] 0 0) = Some (Rti 1 ''NcdfFileRti'' ''a.nc'' None [])
   \<and> live (snd (closeCurrentItem exampleRepoEnv (setCurrentIndex exampleView (ModelIndex [] 0 1)))) = {}
   \<and> callLog (snd (closeCurrentItem exampleRepoEnv
         (snd (openCurrentItem exampleRepoEnv (setCurrentIndex exampleView (ModelIndex [] 0 1))))))
       = [SelectionSetCurrentIndex (ModelIndex [] 0 1) {Clear, Select, Rows},
          ItemOpen 1, SetExpanded (ModelIndex [] 0 0) True,
          RemoveAllChildrenAtIndex (ModelIndex [] 0 0), ItemClose 1, SetExpanded (ModelIndex [] 0 0) False]"
proof -
  have g: "getCurrentItem (setCurrentIndex exampleView (ModelIndex [] 0 1))
     = Inr (Rti 1 ''NcdfFileRti'' ''a.nc'' None [Rti 2 ''NcdfVariableRti'' ''a.nc'' (Some 1) []],
            ModelIndex [] 0 0)"
    by (simp add: getCurrentItem_def getCurrentIndex_def getItem_def setCurrentIndex_def
        selectionModel_setCurrentIndex_def Let_def exampleView_def RepoTreeView_def exampleRoot_def)
  have l: "live (setCurrentIndex exampleView (ModelIndex [] 0 1))
      - subtreeIds (Rti 1 ''NcdfFileRti'' ''a.nc'' None [Rti 2 ''NcdfVariableRti'' ''a.nc'' (Some 1) []]) = {}"
    by (simp add: setCurrentIndex_def selectionModel_setCurrentIndex_def Let_def exampleView_def
        RepoTreeView_def)
  have k: "callLog (setCurrentIndex exampleView (ModelIndex [] 0 1))
      = [SelectionSetCurrentIndex (ModelIndex [] 0 1) {Clear, Select, Rows}]"
    by (auto simp: setCurrentIndex_def selectionModel_setCurrentIndex_def Let_def exampleView_def
        RepoTreeView_def ClearAndSelect_def)
  note T = closeCurrentItem_order_release [OF g, of exampleRepoEnv, unfolded l k]
  from T have 1: "fst (closeCurrentItem exampleRepoEnv (setCurrentIndex exampleView (ModelIndex [] 0 1))) = Inr ()"
    and 2: "getItem (snd (closeCurrentItem exampleRepoEnv (setCurrentIndex exampleView (ModelIndex [] 0 1))))
        (ModelIndex [] 0 0)
        = Some (setChildItems [] (Rti 1 ''NcdfFileRti'' ''a.nc'' None [Rti 2 ''NcdfVariableRti'' ''a.nc'' (Some 1) []]))"
    and 3: "live (snd (closeCurrentItem exampleRepoEnv (setCurrentIndex exampleView (ModelIndex [] 0 1)))) = {}"
    and 4: "callLog (snd (closeCurrentItem exampleRepoEnv
         (snd (openCurrentItem exampleRepoEnv (setCurrentIndex exampleView (ModelIndex [] 0 1))))))
       = [SelectionSetCurrentIndex (ModelIndex [] 0 1) {Clear, Select, Rows}] @
         [ItemOpen (nodeId (Rti 1 ''NcdfFileRti'' ''a.nc'' None [Rti 2 ''NcdfVariableRti'' ''a.nc'' (Some 1) []])),
          SetExpanded (ModelIndex [] 0 0) True,
          RemoveAllChildrenAtIndex (ModelIndex [] 0 0),
          ItemClose (nodeId (Rti 1 ''NcdfFileRti'' ''a.nc'' None [Rti 2 ''NcdfVariableRti'' ''a.nc'' (Some 1) []])),
          SetExpanded (ModelIndex [] 0 0) False]"
    by blast+
  from g 1 2 3 4 show ?thesis
    by simp
qed

subsection \<open>Reloading the file of the current item\<close>

lemma updateAt_cong_at:
  "itemAt p t = Some x \<Longrightarrow> f x = g x \<Longrightarrow> updateAt p f t = updateAt p g t"
  by (induction p arbitrary: t) (auto split: if_splits)

lemma updateAt_single:
  "r < length (childItems par) \<Longrightarrow>
   updateAt [r] f par = setChildItems ((childItems par)[r := f (childItems par ! r)]) par"
  by simp

lemma delete_then_insert_children:
  assumes "r < length cs"
  shows "take r (take r cs @ drop (Suc r) cs) @ [x] @ drop r (take r cs @ drop (Suc r) cs) = cs[r := x]"
  using assms by (simp add: upd_conv_take_nth_drop min_def)

lemma deleteItemByIndex_resolved:
  assumes "getItem w (ModelIndex pp r c) = Some x"
  shows "deleteItemByIndex w (ModelIndex pp r c) =
     Some (w\<lparr>rootItem := updateAt pp
                 (\<lambda>t. setChildItems (take r (childItems t) @ drop (Suc r) (childItems t)) t) (rootItem w),
            live := live w - subtreeIds x,
            callLog := callLog w @ [DeleteItemByIndex (ModelIndex pp r c)]\<rparr>)"
  using assms by (simp add: deleteItemByIndex_def)

lemma getItem_parent_of:
  assumes "getItem w (ModelIndex pp r c) = Some x"
  shows "\<exists>par. itemAt pp (rootItem w) = Some par \<and> r < length (childItems par) \<and> childItems par ! r = x"
  using assms by (simp add: getItem_def itemAt_snoc_Some)

text \<open>Deleting the node of an index and inserting another node at the same position
  under the same parent replaces the node and leaves its siblings alone.\<close>

lemma delete_insert_replaces:
  assumes par: "itemAt pp root = Some par" and r: "r < length (childItems par)"
  shows "updateAt pp (\<lambda>t. setChildItems (take r (childItems t) @ [child] @ drop r (childItems t)) t)
           (updateAt pp (\<lambda>t. setChildItems (take r (childItems t) @ drop (Suc r) (childItems t)) t) root)
         = updateAt (pp @ [r]) (\<lambda>old. child) root"
proof -
  have "updateAt pp (\<lambda>t. setChildItems (take r (childItems t) @ [child] @ drop r (childItems t)) t)
           (updateAt pp (\<lambda>t. setChildItems (take r (childItems t) @ drop (Suc r) (childItems t)) t) root)
        = updateAt pp (\<lambda>t. setChildItems
             (take r (take r (childItems t) @ drop (Suc r) (childItems t)) @ [child]
              @ drop r (take r (childItems t) @ drop (Suc r) (childItems t))) t) root"
    by (simp add: updateAt_updateAt)
  also have "\<dots> = updateAt pp (updateAt [r] (\<lambda>old. child)) root"
    using par
  proof (rule updateAt_cong_at)
    show "setChildItems
             (take r (take r (childItems par) @ drop (Suc r) (childItems par)) @ [child]
              @ drop r (take r (childItems par) @ drop (Suc r) (childItems par))) par
          = updateAt [r] (\<lambda>old. child) par"
      using r by (simp only: delete_then_insert_children updateAt_single)
  qed
  also have "\<dots> = updateAt (pp @ [r]) (\<lambda>old. child) root"
    by (simp add: updateAt_append)
  finally show ?thesis .
qed

lemma itemAt_replaced:
  assumes "itemAt pp root = Some par" and "r < length (childItems par)"
  shows "itemAt (pp @ [r]) (updateAt (pp @ [r]) (\<lambda>old. nd) root) = Some nd"
    and "itemAt pp (updateAt (pp @ [r]) (\<lambda>old. nd) root) = Some (setChildItems ((childItems par)[r := nd]) par)"
proof -
  have x: "itemAt (pp @ [r]) root = Some (childItems par ! r)"
    using assms by (simp add: itemAt_snoc_Some)
  show "itemAt (pp @ [r]) (updateAt (pp @ [r]) (\<lambda>old. nd) root) = Some nd"
    using itemAt_updateAt_same [OF x] by simp
  have "updateAt (pp @ [r]) (\<lambda>old. nd) root = updateAt pp (updateAt [r] (\<lambda>old. nd)) root"
    by (simp add: updateAt_append)
  then show "itemAt pp (updateAt (pp @ [r]) (\<lambda>old. nd) root) = Some (setChildItems ((childItems par)[r := nd]) par)"
    using itemAt_updateAt_same [OF assms(1), of "updateAt [r] (\<lambda>old. nd)"] assms(2)
    by simp
qed

lemma updateAt_replace_twice:
  "updateAt p f (updateAt p (\<lambda>old. nd) root) = updateAt p (\<lambda>old. f nd) root"
  by (simp add: updateAt_updateAt)

lemma reload_resolved:
  fixes newId :: nat
  assumes f: "findFileRtiIndex env (rootItem w) (getCurrentIndex w) = ModelIndex pp r c"
    and g: "getItem w (ModelIndex pp r c) = Some fileRti"
    and par: "itemAt pp (rootItem w) = Some par"
  defines "fresh \<equiv> createFromFileName (rtiClass fileRti) (fileName fileRti) newId"
  defines "child \<equiv> setParentItem (if pp = [] then None else Some (nodeId par)) fresh"
  defines "fetches \<equiv> newId \<in> live w - subtreeIds fileRti"
  defines "nd \<equiv> (if fetches then setChildItems (fst (fetchChildren env child)) child else child)"
  shows "reloadFileOfCurrentItem env w newId =
     (Inr (ModelIndex pp r 0),
      w\<lparr>rootItem := updateAt (pp @ [r]) (\<lambda>old. nd) (rootItem w),
        live := (if fetches then (live w - subtreeIds fileRti) \<union> snd (fetchChildren env child)
                 else live w - subtreeIds fileRti),
        expanded := insert newId (expanded w),
        currentIndex := ModelIndex pp r 0,
        selectedIndexes := rowIndexes (columnCount w) (ModelIndex pp r 0),
        callLog := callLog w @
          [DeleteItemByIndex (ModelIndex pp r c),
           InsertItem fresh (Some r) (parent (ModelIndex pp r c)),
           SetExpanded (ModelIndex pp r 0) True,
           SelectionSetCurrentIndex (ModelIndex pp r 0) (ClearAndSelect \<union> {Rows})]\<rparr>)"
proof -
  from getItem_parent_of [OF g] par have r: "r < length (childItems par)"
    and x: "childItems par ! r = fileRti"
    by auto
  define del where "del = (\<lambda>t. setChildItems (take r (childItems t) @ drop (Suc r) (childItems t)) t)"
  define w1 where "w1 = w\<lparr>rootItem := updateAt pp del (rootItem w),
            live := live w - subtreeIds fileRti,
            callLog := callLog w @ [DeleteItemByIndex (ModelIndex pp r c)]\<rparr>"
  have d: "deleteItemByIndex w (ModelIndex pp r c) = Some w1"
    unfolding w1_def del_def by (rule deleteItemByIndex_resolved [OF g])
  have p1: "getItem w1 (parent (ModelIndex pp r c)) = Some (del par)"
    using par by (simp add: getItem_def w1_def itemAt_updateAt_same del: parent.simps)
  have len: "\<not> length (childItems (del par)) < r"
    using r by (simp add: del_def)
  define w2 where "w2 = w1\<lparr>rootItem := updateAt (pp @ [r]) (\<lambda>old. child) (rootItem w),
            callLog := callLog w1 @ [InsertItem fresh (Some r) (parent (ModelIndex pp r c))]\<rparr>"
  have root2: "updateAt pp (\<lambda>t. setChildItems (take r (childItems t) @ [child] @ drop r (childItems t)) t)
                 (rootItem w1) = updateAt (pp @ [r]) (\<lambda>old. child) (rootItem w)"
    unfolding w1_def del_def using delete_insert_replaces [OF par r, of child] by simp
  have i: "insertItem w1 fresh (Some r) (parent (ModelIndex pp r c)) = Some (ModelIndex pp r 0, w2)"
    unfolding insertItem_def p1 Let_def
    using len root2
    by (simp add: w2_def child_def del_def del: parent.simps) (auto simp: del_def)
  have np: "parentItem fresh = None"
    by (simp add: fresh_def createFromFileName_def)
  have l: "loadRepoTreeItem env w1 fresh True (Some r) (parent (ModelIndex pp r c))
             = (Inr (ModelIndex pp r 0), setExpanded env w2 (ModelIndex pp r 0) True)"
    by (simp add: loadRepoTreeItem_def np i del: parent.simps)
  have c2: "getItem w2 (ModelIndex pp r 0) = Some child"
    using itemAt_replaced(1) [OF par r] by (simp add: getItem_def w2_def)
  have cc: "childItems child = []" "nodeId child = newId"
    by (simp_all add: child_def fresh_def createFromFileName_def)
  have lv2: "live w2 = live w - subtreeIds fileRti"
    by (simp add: w2_def w1_def)
  define w3 where "w3 = setExpanded env w2 (ModelIndex pp r 0) True"
  have w3: "w3 = w2\<lparr>callLog := callLog w2 @ [SetExpanded (ModelIndex pp r 0) True],
                   expanded := insert newId (expanded w2),
                   rootItem := updateAt (pp @ [r]) (\<lambda>old. nd) (rootItem w),
                   live := (if fetches then (live w - subtreeIds fileRti) \<union> snd (fetchChildren env child)
                            else live w - subtreeIds fileRti)\<rparr>"
  proof (cases fetches)
    case True
    then have "nodeId child \<in> live w2"
      by (simp add: cc lv2 fetches_def)
    then show ?thesis
      unfolding w3_def setExpanded_def Let_def c2
      using True
      by (simp add: cc lv2 nd_def w2_def w1_def updateAt_updateAt del: parent.simps)
  next
    case False
    then have "nodeId child \<notin> live w2"
      by (simp add: cc lv2 fetches_def)
    then show ?thesis
      unfolding w3_def setExpanded_def Let_def c2
      using False
      by (auto simp: cc lv2 nd_def w2_def w1_def simp del: parent.simps)
  qed
  have k: "childNumber (ModelIndex pp r c) = Some r"
    by simp
  have "reloadFileOfCurrentItem env w newId = (Inr (ModelIndex pp r 0), setCurrentIndex w3 (ModelIndex pp r 0))"
    unfolding reloadFileOfCurrentItem_def Let_def f g k d
    using l by (simp add: fresh_def w3_def del: parent.simps)
  also have "setCurrentIndex w3 (ModelIndex pp r 0) =
      w\<lparr>rootItem := updateAt (pp @ [r]) (\<lambda>old. nd) (rootItem w),
        live := (if fetches then (live w - subtreeIds fileRti) \<union> snd (fetchChildren env child)
                 else live w - subtreeIds fileRti),
        expanded := insert newId (expanded w),
        currentIndex := ModelIndex pp r 0,
        selectedIndexes := rowIndexes (columnCount w) (ModelIndex pp r 0),
        callLog := callLog w @
          [DeleteItemByIndex (ModelIndex pp r c),
           InsertItem fresh (Some r) (parent (ModelIndex pp r c)),
           SetExpanded (ModelIndex pp r 0) True,
           SelectionSetCurrentIndex (ModelIndex pp r 0) (ClearAndSelect \<union> {Rows})]\<rparr>"
    unfolding w3 w2_def w1_def setCurrentIndex_def selectionModel_setCurrentIndex_def Let_def
    by (simp add: ClearAndSelect_def del: parent.simps rowIndexes.simps)
  finally show ?thesis .
qed

lemma removeThenLoad_reload:
  assumes f: "findFileRtiIndex env (rootItem w) (getCurrentIndex w) = ModelIndex pp r c"
    and g: "getItem w (ModelIndex pp r c) = Some fileRti"
  shows "\<exists>index w2. removeThenLoadAtSamePosition env w (ModelIndex pp r c) newId = Some (Inr index, w2)
           \<and> reloadFileOfCurrentItem env w newId = (Inr index, setCurrentIndex w2 index)"
proof -
  from getItem_parent_of [OF g] obtain par where par: "itemAt pp (rootItem w) = Some par"
    by blast
  from deleteItemByIndex_resolved [OF g] obtain w1 where d: "deleteItemByIndex w (ModelIndex pp r c) = Some w1"
    by blast
  obtain res w2 where l: "loadRepoTreeItem env w1
      (createFromFileName (rtiClass fileRti) (fileName fileRti) newId) True (Some r)
      (parent (ModelIndex pp r c)) = (res, w2)"
    by (cases "loadRepoTreeItem env w1
      (createFromFileName (rtiClass fileRti) (fileName fileRti) newId) True (Some r)
      (parent (ModelIndex pp r c))") blast
  have e: "reloadFileOfCurrentItem env w newId =
      (case res of Inl e \<Rightarrow> (Inl e, w2) | Inr index \<Rightarrow> (Inr index, setCurrentIndex w2 index))"
    unfolding reloadFileOfCurrentItem_def Let_def f g
    using d l by (simp del: parent.simps split: sum.splits)
  have "fst (reloadFileOfCurrentItem env w newId) = Inr (ModelIndex pp r 0)"
    using reload_resolved [OF f g par, of newId] by simp
  with e obtain index where res: "res = Inr index"
    by (cases res) auto
  have "removeThenLoadAtSamePosition env w (ModelIndex pp r c) newId = Some (Inr index, w2)"
    unfolding removeThenLoadAtSamePosition_def g
    using d l res by (simp del: parent.simps)
  with e res show ?thesis
    by simp
qed

text \<open>
  Claim C2. When the file node above the current index is a node of the tree,
  \<^verbatim>\<open>reloadFileOfCurrentItem()\<close> returns, and it is the same as deleting that node and
  loading a freshly constructed item of the same class from the same file name at the
  same position under the same parent, followed by making the new index current: in the
  tree the old node is replaced by the new one and nothing else changes, so the new node
  stands among the children of its parent where the old one stood; the returned index
  is the old index in column 0; the new node is the current item and its row is the
  selection; and when the identity of the new item is not that of an open item, the
  resources that remain open are those that were open outside the old node's subtree.
\<close>

theorem reloadFileOfCurrentItem_same_position:
  assumes f: "findFileRtiIndex env (rootItem w) (getCurrentIndex w) = ModelIndex pp r c"
    and g: "getItem w (ModelIndex pp r c) = Some fileRti"
  shows "fst (reloadFileOfCurrentItem env w newId) = Inr (ModelIndex pp r 0)
    \<and> (\<exists>index w2. removeThenLoadAtSamePosition env w (ModelIndex pp r c) newId = Some (Inr index, w2)
           \<and> reloadFileOfCurrentItem env w newId = (Inr index, setCurrentIndex w2 index))
    \<and> (\<exists>par nd.
          getItem w (parent (ModelIndex pp r c)) = Some par
        \<and> r < length (childItems par) \<and> childItems par ! r = fileRti
        \<and> rootItem (snd (reloadFileOfCurrentItem env w newId)) = updateAt (pp @ [r]) (\<lambda>old. nd) (rootItem w)
        \<and> getItem (snd (reloadFileOfCurrentItem env w newId)) (parent (ModelIndex pp r 0))
            = Some (setChildItems ((childItems par)[r := nd]) par)
        \<and> getItem (snd (reloadFileOfCurrentItem env w newId)) (ModelIndex pp r 0) = Some nd
        \<and> nodeId nd = newId \<and> rtiClass nd = rtiClass fileRti \<and> fileName nd = fileName fileRti
        \<and> parentItem nd = (if pp = [] then None else Some (nodeId par))
        \<and> (newId \<notin> live w \<longrightarrow>
              childItems nd = []
            \<and> live (snd (reloadFileOfCurrentItem env w newId)) = live w - subtreeIds fileRti))
    \<and> currentIndex (snd (reloadFileOfCurrentItem env w newId)) = ModelIndex pp r 0
    \<and> getCurrentIndex (snd (reloadFileOfCurrentItem env w newId)) = ModelIndex pp r 0
    \<and> selectedIndexes (snd (reloadFileOfCurrentItem env w newId)) = {ModelIndex pp r k | k. k < columnCount w}
    \<and> callLog (snd (reloadFileOfCurrentItem env w newId)) = callLog w @
          [DeleteItemByIndex (ModelIndex pp r c),
           InsertItem (createFromFileName (rtiClass fileRti) (fileName fileRti) newId) (Some r)
             (parent (ModelIndex pp r c)),
           SetExpanded (ModelIndex pp r 0) True,
           SelectionSetCurrentIndex (ModelIndex pp r 0) (ClearAndSelect \<union> {Rows})]"
proof -
  from getItem_parent_of [OF g] obtain par where par: "itemAt pp (rootItem w) = Some par"
    and r: "r < length (childItems par)" and x: "childItems par ! r = fileRti"
    by blast
  define child where "child = setParentItem (if pp = [] then None else Some (nodeId par))
      (createFromFileName (rtiClass fileRti) (fileName fileRti) newId)"
  define nd where "nd = (if newId \<in> live w - subtreeIds fileRti
      then setChildItems (fst (fetchChildren env child)) child else child)"
  note R = reload_resolved [OF f g par, of newId, folded child_def, folded nd_def]
  have gp: "getItem w (parent (ModelIndex pp r c)) = Some par"
    using par by (simp add: getItem_def del: parent.simps)
  have root: "rootItem (snd (reloadFileOfCurrentItem env w newId)) = updateAt (pp @ [r]) (\<lambda>old. nd) (rootItem w)"
    by (simp add: R)
  have gpar: "getItem (snd (reloadFileOfCurrentItem env w newId)) (parent (ModelIndex pp r 0))
            = Some (setChildItems ((childItems par)[r := nd]) par)"
    unfolding getItem_def root using itemAt_replaced(2) [OF par r] by (simp del: parent.simps)
  have gnd: "getItem (snd (reloadFileOfCurrentItem env w newId)) (ModelIndex pp r 0) = Some nd"
    unfolding getItem_def root using itemAt_replaced(1) [OF par r] by simp
  have ids: "nodeId nd = newId \<and> rtiClass nd = rtiClass fileRti \<and> fileName nd = fileName fileRti
        \<and> parentItem nd = (if pp = [] then None else Some (nodeId par))"
    by (simp add: nd_def child_def createFromFileName_def)
  have fr: "newId \<notin> live w \<longrightarrow>
              childItems nd = []
            \<and> live (snd (reloadFileOfCurrentItem env w newId)) = live w - subtreeIds fileRti"
    by (simp add: R nd_def child_def createFromFileName_def)
  have tree: "\<exists>par nd.
          getItem w (parent (ModelIndex pp r c)) = Some par
        \<and> r < length (childItems par) \<and> childItems par ! r = fileRti
        \<and> rootItem (snd (reloadFileOfCurrentItem env w newId)) = updateAt (pp @ [r]) (\<lambda>old. nd) (rootItem w)
        \<and> getItem (snd (reloadFileOfCurrentItem env w newId)) (parent (ModelIndex pp r 0))
            = Some (setChildItems ((childItems par)[r := nd]) par)
        \<and> getItem (snd (reloadFileOfCurrentItem env w newId)) (ModelIndex pp r 0) = Some nd
        \<and> nodeId nd = newId \<and> rtiClass nd = rtiClass fileRti \<and> fileName nd = fileName fileRti
        \<and> parentItem nd = (if pp = [] then None else Some (nodeId par))
        \<and> (newId \<notin> live w \<longrightarrow>
              childItems nd = []
            \<and> live (snd (reloadFileOfCurrentItem env w newId)) = live w - subtreeIds fileRti)"
    using gp r x root gpar gnd ids fr by blast
  have 1: "fst (reloadFileOfCurrentItem env w newId) = Inr (ModelIndex pp r 0)"
    by (simp add: R)
  have 2: "currentIndex (snd (reloadFileOfCurrentItem env w newId)) = ModelIndex pp r 0"
    by (simp add: R)
  have 3: "getCurrentIndex (snd (reloadFileOfCurrentItem env w newId)) = ModelIndex pp r 0"
    by (simp add: getCurrentIndex_def 2)
  have 4: "selectedIndexes (snd (reloadFileOfCurrentItem env w newId)) = {ModelIndex pp r k | k. k < columnCount w}"
    by (simp add: R rowIndexes_valid del: rowIndexes.simps)
  have 5: "callLog (snd (reloadFileOfCurrentItem env w newId)) = callLog w @
          [DeleteItemByIndex (ModelIndex pp r c),
           InsertItem (createFromFileName (rtiClass fileRti) (fileName fileRti) newId) (Some r)
             (parent (ModelIndex pp r c)),
           SetExpanded (ModelIndex pp r 0) True,
           SelectionSetCurrentIndex (ModelIndex pp r 0) (ClearAndSelect \<union> {Rows})]"
    by (simp add: R del: parent.simps)
  from 1 removeThenLoad_reload [OF f g, of newId] tree 2 3 4 5 show ?thesis
    by (intro conjI)
qed


theorem reloadFileOfCurrentItem_same_position_witness:
  "findFileRtiIndex exampleRepoEnv (rootItem (setCurrentIndex exampleView (ModelIndex [0] 0 1)))
      (getCurrentIndex (setCurrentIndex exampleView (ModelIndex [0] 0 1))) = ModelIndex [] 0 0
   \<and> getItem (setCurrentIndex exampleView (ModelIndex [0] 0 1)) (ModelIndex [] 0 0)
       = Some (Rti 1 ''NcdfFileRti'' ''a.nc'' None [Rti 2 ''NcdfVariableRti'' ''a.nc'' (Some 1) []])
   \<and> 9 \<notin> live (setCurrentIndex exampleView (ModelIndex [0] 0 1))
   \<and> fst (reloadFileOfCurrentItem exampleRepoEnv (setCurrentIndex exampleView (ModelIndex [0] 0 1)) 9)
       = Inr (ModelIndex [] 0 0)
   \<and> getItem (snd (reloadFileOfCurrentItem exampleRepoEnv (setCurrentIndex exampleView (ModelIndex [0] 0 1)) 9))
        (ModelIndex [] 0 0) = Some (Rti 9 ''NcdfFileRti'' ''a.nc'' None [])
   \<and> getItem (snd (reloadFileOfCurrentItem exampleRepoEnv (setCurrentIndex exampleView (ModelIndex [0] 0 1)) 9))
        InvalidIndex
       = Some (Rti 0 ''root'' [] None [Rti 9 ''NcdfFileRti'' ''a.nc'' None [], Rti 3 ''NcdfFileRti'' ''b.nc'' None []])
   \<and> live (snd (reloadFileOfCurrentItem exampleRepoEnv (setCurrentIndex exampleView (ModelIndex [0] 0 1)) 9)) = {}
   \<and> getCurrentIndex (snd (reloadFileOfCurrentItem exampleRepoEnv (setCurrentIndex exampleView (ModelIndex [0] 0 1)) 9))
       = ModelIndex [] 0 0"
proof -
  define w0 where "w0 = setCurrentIndex exampleView (ModelIndex [0] 0 1)"
  have root0: "rootItem w0 = exampleRoot" and live0: "live w0 = {1, 2}"
    and cur0: "getCurrentIndex w0 = ModelIndex [0] 0 0"
    by (simp_all add: w0_def setCurrentIndex_def selectionModel_setCurrentIndex_def Let_def
        exampleView_def RepoTreeView_def getCurrentIndex_def)
  have f: "findFileRtiIndex exampleRepoEnv (rootItem w0) (getCurrentIndex w0) = ModelIndex [] 0 0"
    by (simp add: cur0 exampleRepoEnv_def findTopLevelItemIndex_valid)
  have g: "getItem w0 (ModelIndex [] 0 0)
       = Some (Rti 1 ''NcdfFileRti'' ''a.nc'' None [Rti 2 ''NcdfVariableRti'' ''a.nc'' (Some 1) []])"
    by (simp add: getItem_def root0 exampleRoot_def)
  have n: "9 \<notin> live w0"
    by (simp add: live0)
  note T = reloadFileOfCurrentItem_same_position [OF f g, of 9]
  from T have 1: "fst (reloadFileOfCurrentItem exampleRepoEnv w0 9) = Inr (ModelIndex [] 0 0)"
    and 4: "getCurrentIndex (snd (reloadFileOfCurrentItem exampleRepoEnv w0 9)) = ModelIndex [] 0 0"
    by blast+
  from T n obtain par nd where
    p: "getItem w0 (parent (ModelIndex [] 0 0)) = Some par"
    and gp: "getItem (snd (reloadFileOfCurrentItem exampleRepoEnv w0 9)) (parent (ModelIndex [] 0 0))
            = Some (setChildItems ((childItems par)[0 := nd]) par)"
    and gn: "getItem (snd (reloadFileOfCurrentItem exampleRepoEnv w0 9)) (ModelIndex [] 0 0) = Some nd"
    and nd: "nodeId nd = 9" "rtiClass nd = ''NcdfFileRti''" "fileName nd = ''a.nc''"
      "parentItem nd = None" "childItems nd = []"
    and lv: "live (snd (reloadFileOfCurrentItem exampleRepoEnv w0 9))
              = live w0 - subtreeIds (Rti 1 ''NcdfFileRti'' ''a.nc'' None [Rti 2 ''NcdfVariableRti'' ''a.nc'' (Some 1) []])"
    by auto
  from nd have nd': "nd = Rti 9 ''NcdfFileRti'' ''a.nc'' None []"
    by (cases nd) simp
  from p have par: "par = exampleRoot"
    by (simp add: getItem_def root0)
  have 2: "getItem (snd (reloadFileOfCurrentItem exampleRepoEnv w0 9)) (ModelIndex [] 0 0)
             = Some (Rti 9 ''NcdfFileRti'' ''a.nc'' None [])"
    using gn nd' by simp
  have 3: "getItem (snd (reloadFileOfCurrentItem exampleRepoEnv w0 9)) InvalidIndex
       = Some (Rti 0 ''root'' [] None [Rti 9 ''NcdfFileRti'' ''a.nc'' None [], Rti 3 ''NcdfFileRti'' ''b.nc'' None []])"
    using gp by (simp add: par nd' exampleRoot_def)
  have 5: "live (snd (reloadFileOfCurrentItem exampleRepoEnv w0 9)) = {}"
    by (simp add: lv live0)
  from f g n 1 2 3 5 4 show ?thesis
    unfolding w0_def by (intro conjI)
qed

end
